theory Spec2Isabelle
  imports Main
begin

section \<open>JavaScript values\<close>

text \<open>
  The slideshow script \<^verbatim>\<open>amber.js\<close> handles three kinds of data: the slide objects
  (decoded JSON from the server proxy, or object literals built while scraping), strings
  (URLs, titles) and one integer (the current index).

  Strings are lists of 8-bit characters, one character per UTF-16 code unit, so the model
  covers the JavaScript strings whose code units are below 256. Numbers inside a slide are
  only ever tested for truthiness, and are kept as integers.
\<close>

datatype jsval =
    Undefined
  | Null
  | Bool bool
  | Num int
  | Str string
  | Arr "jsval list"
  | Obj "(string \<times> jsval) list"

datatype js_error =
    TypeError
  | SyntaxError
  | NetworkError
  | Error string

text \<open>How a statement, or a call, completes: normally, or by throwing.\<close>

datatype completion = Returned | Threw js_error

text \<open>ToBoolean: the falsy values are undefined, null, false, 0 and the empty string.\<close>

fun truthy :: "jsval \<Rightarrow> bool" where
  "truthy Undefined = False"
| "truthy Null = False"
| "truthy (Bool b) = b"
| "truthy (Num n) = (n \<noteq> 0)"
| "truthy (Str s) = (s \<noteq> [])"
| "truthy (Arr xs) = True"
| "truthy (Obj kvs) = True"

text \<open>The operator \<^verbatim>\<open>a || b\<close>.\<close>

definition js_or :: "jsval \<Rightarrow> jsval \<Rightarrow> jsval" where
  "js_or a b = (if truthy a then a else b)"

text \<open>
  Reading a property \<^verbatim>\<open>s.k\<close>, for the keys the script reads on a slide (title, desc, img,
  url): a TypeError on undefined and null, the stored value on an object that has the key,
  undefined everywhere else (no prototype defines one of these four keys).
\<close>

fun js_get :: "jsval \<Rightarrow> string \<Rightarrow> js_error + jsval" where
  "js_get Undefined k = Inl TypeError"
| "js_get Null k = Inl TypeError"
| "js_get (Obj kvs) k = Inr (case map_of kvs k of Some v \<Rightarrow> v | None \<Rightarrow> Undefined)"
| "js_get v k = Inr Undefined"

text \<open>Reading \<^verbatim>\<open>xs[i]\<close> on an array: undefined outside the array, also at a negative index.\<close>

definition js_index :: "jsval list \<Rightarrow> int \<Rightarrow> jsval" where
  "js_index xs i = (if 0 \<le> i \<and> i < int (length xs) then xs ! nat i else Undefined)"

text \<open>
  The remainder operator \<^verbatim>\<open>a % b\<close> on integers truncates towards zero: the result has the
  sign of the dividend. The script applies it to a positive divisor only.
\<close>

definition js_rem :: "int \<Rightarrow> int \<Rightarrow> int" where
  "js_rem a b = sgn a * (\<bar>a\<bar> mod \<bar>b\<bar>)"

text \<open>
  Numbers are IEEE doubles, with 53 significant bits. The sum and the difference of two
  integers are rounded to the nearest double, to the one with the even significand when
  two are equally near: integers up to \<open>2 ^ 53\<close> in magnitude are exact, above that only
  the multiples of the spacing \<open>ulp\<close> exist. The remainder of two doubles is exact. The
  integers the script handles stay far below the largest double.
\<close>

function ulp :: "nat \<Rightarrow> nat" where
  "ulp a = (if a < 2 ^ 53 then 1 else 2 * ulp (a div 2))"
  by pat_completeness auto
termination
  by (relation "measure id") auto

declare ulp.simps [simp del]

definition round_double :: "int \<Rightarrow> int" where
  "round_double x =
     (let a = nat \<bar>x\<bar>;
          q = ulp a;
          below = (a div q) * q;
          m = (if 2 * (a mod q) < q then below
               else if q < 2 * (a mod q) then below + q
               else if even (a div q) then below
               else below + q)
      in sgn x * int m)"

definition js_add :: "int \<Rightarrow> int \<Rightarrow> int" where
  "js_add a b = round_double (a + b)"

definition js_sub :: "int \<Rightarrow> int \<Rightarrow> int" where
  "js_sub a b = round_double (a - b)"

section \<open>The page: render targets, timers, script variables\<close>

text \<open>
  The four render targets (\<^verbatim>\<open>slide-title\<close>, \<^verbatim>\<open>slide-desc\<close>, \<^verbatim>\<open>slide-image\<close>, \<^verbatim>\<open>slide-link\<close>) exist
  in the hosting page. The record holds what the script assigns to them; the conversion of
  an assigned value to a string is the browser's.
\<close>

record view =
  img_animation :: string
  title_animation :: string
  desc_animation :: string
  title_textContent :: jsval
  desc_textContent :: jsval
  img_src :: jsval
  img_alt :: jsval
  link_href :: jsval

text \<open>
  The script's variables \<^verbatim>\<open>slides\<close>, \<^verbatim>\<open>current\<close>, \<^verbatim>\<open>timer\<close>, \<^verbatim>\<open>itchUrl\<close>, the render targets, the
  browser's table of the intervals this script has set and not cleared (handle and delay),
  the last handle the browser gave out, and the URLs of the calls of \<^verbatim>\<open>loadSlides\<close> that
  are waiting for their fetch.
\<close>

record state =
  slides :: "jsval list"
  current :: int
  timer :: "nat option"
  itchUrl :: string
  targets :: view
  intervals :: "(nat \<times> nat) list"
  last_handle :: nat
  pending :: "string list"

definition DEFAULT_ITCH_URL :: string where
  "DEFAULT_ITCH_URL = ''https://ducky-dev.itch.io''"

definition AUTO_INTERVAL_MS :: nat where
  "AUTO_INTERVAL_MS = 5000"

definition API_ENDPOINT :: string where
  "API_ENDPOINT = ''/api/slides''"

text \<open>The state when the script has been evaluated, over the page's render targets.\<close>

definition initial :: "view \<Rightarrow> state" where
  "initial v = \<lparr>slides = [], current = 0, timer = None, itchUrl = DEFAULT_ITCH_URL,
     targets = v, intervals = [], last_handle = 0, pending = []\<rparr>"

subsection \<open>showSlide\<close>

text \<open>
  Lines 103 to 118: the animation of the three animated targets is set to \<^verbatim>\<open>none\<close> and
  then to the empty string, and the five fields are written in order. The first read
  \<^verbatim>\<open>s.title\<close> throws when \<^verbatim>\<open>s\<close> is undefined or null, after the animation has been reset.
\<close>

definition restart_animation :: "view \<Rightarrow> view" where
  "restart_animation v =
     (v\<lparr>img_animation := ''none'', title_animation := ''none'', desc_animation := ''none''\<rparr>)
      \<lparr>img_animation := [], title_animation := [], desc_animation := []\<rparr>"

definition render :: "jsval \<Rightarrow> string \<Rightarrow> view \<Rightarrow> completion \<times> view" where
  "render s itch v =
     (let v0 = restart_animation v in
      (case js_get s ''title'' of Inl e \<Rightarrow> (Threw e, v0) | Inr t \<Rightarrow>
      (let v1 = v0\<lparr>title_textContent := js_or t (Str [])\<rparr> in
      (case js_get s ''desc'' of Inl e \<Rightarrow> (Threw e, v1) | Inr d \<Rightarrow>
      (let v2 = v1\<lparr>desc_textContent := js_or d (Str [])\<rparr> in
      (case js_get s ''img'' of Inl e \<Rightarrow> (Threw e, v2) | Inr i \<Rightarrow>
      (let v3 = v2\<lparr>img_src := js_or i (Str ''BG.jpg'')\<rparr> in
      (case js_get s ''title'' of Inl e \<Rightarrow> (Threw e, v3) | Inr t' \<Rightarrow>
      (let v4 = v3\<lparr>img_alt := js_or t' (Str ''Slide image'')\<rparr> in
      (case js_get s ''url'' of Inl e \<Rightarrow> (Threw e, v4) | Inr u \<Rightarrow>
      (Returned, v4\<lparr>link_href := js_or u (Str itch)\<rparr>)))))))))))"

definition showSlide :: "int \<Rightarrow> state \<Rightarrow> completion \<times> state" where
  "showSlide i st =
     (if length (slides st) = 0 then (Returned, st)
      else
        let st1 = st\<lparr>current :=
                   js_rem (js_add i (int (length (slides st)))) (int (length (slides st)))\<rparr>;
            s = js_index (slides st1) (current st1);
            r = render s (itchUrl st1) (targets st1)
        in (fst r, st1\<lparr>targets := snd r\<rparr>))"

definition nextSlide :: "state \<Rightarrow> completion \<times> state" where
  "nextSlide st = showSlide (js_add (current st) 1) st"

definition prevSlide :: "state \<Rightarrow> completion \<times> state" where
  "prevSlide st = showSlide (js_sub (current st) 1) st"

subsection \<open>The auto-advance timer\<close>

text \<open>
  \<^verbatim>\<open>setInterval\<close> returns a handle that is a positive integer, new at every call, and
  \<^verbatim>\<open>clearInterval\<close> removes the interval of a handle. The callback is always \<^verbatim>\<open>nextSlide\<close>.
\<close>

definition setInterval :: "nat \<Rightarrow> state \<Rightarrow> nat \<times> state" where
  "setInterval ms st =
     (Suc (last_handle st),
      st\<lparr>intervals := intervals st @ [(Suc (last_handle st), ms)],
         last_handle := Suc (last_handle st)\<rparr>)"

definition clearInterval :: "nat \<Rightarrow> state \<Rightarrow> state" where
  "clearInterval h st = st\<lparr>intervals := filter (\<lambda>p. fst p \<noteq> h) (intervals st)\<rparr>"

definition stopAuto :: "state \<Rightarrow> state" where
  "stopAuto st =
     (case timer st of
        None \<Rightarrow> st
      | Some h \<Rightarrow> if h \<noteq> 0 then (clearInterval h st)\<lparr>timer := None\<rparr> else st)"

definition startAuto :: "state \<Rightarrow> state" where
  "startAuto st =
     (let st1 = stopAuto st;
          r = setInterval AUTO_INTERVAL_MS st1
      in (snd r)\<lparr>timer := Some (fst r)\<rparr>)"

section \<open>Strings\<close>

text \<open>The method \<^verbatim>\<open>s.includes(p)\<close>: the pattern occurs somewhere in the string.\<close>

fun str_includes :: "string \<Rightarrow> string \<Rightarrow> bool" where
  "str_includes [] p = (p = [])"
| "str_includes (c # cs) p = (take (length p) (c # cs) = p \<or> str_includes cs p)"

text \<open>
  The regular expression \<^verbatim>\<open>/itch.io/\<close>: the dot is not escaped, so it stands for any one
  character but a line terminator (of the characters below 256: line feed and carriage
  return). \<^verbatim>\<open>test\<close> looks for a match at every position.
\<close>

definition line_terminator :: "char \<Rightarrow> bool" where
  "line_terminator c = (c = CHR 0x0A \<or> c = CHR 0x0D)"

definition itch_io_here :: "string \<Rightarrow> bool" where
  "itch_io_here s =
     (take 4 s = ''itch'' \<and>
      (case drop 4 s of [] \<Rightarrow> False | d # r \<Rightarrow> \<not> line_terminator d \<and> take 2 r = ''io''))"

fun test_itch_io :: "string \<Rightarrow> bool" where
  "test_itch_io [] = False"
| "test_itch_io (c # cs) = (itch_io_here (c # cs) \<or> test_itch_io cs)"

text \<open>
  The regular expression \<^verbatim>\<open>/^https?:\/\//i\<close>: the letters match in either case (only
  the ASCII letters do), the \<^verbatim>\<open>s\<close> is optional.
\<close>

definition lower :: "char \<Rightarrow> char" where
  "lower c =
     (case map_of (zip ''ABCDEFGHIJKLMNOPQRSTUVWXYZ'' ''abcdefghijklmnopqrstuvwxyz'') c of
        Some l \<Rightarrow> l
      | None \<Rightarrow> c)"

definition test_scheme :: "string \<Rightarrow> bool" where
  "test_scheme s =
     (map lower (take 7 s) = ''http://'' \<or> map lower (take 8 s) = ''https://'')"

text \<open>\<^verbatim>\<open>s.replace(/^\/\//, '')\<close>: one leading pair of slashes is removed.\<close>

definition strip_slashes :: "string \<Rightarrow> string" where
  "strip_slashes s = (if take 2 s = ''//'' then drop 2 s else s)"

text \<open>
  \<^verbatim>\<open>s.trim()\<close>: white space and line terminators are removed at both ends (below 256:
  tab, line feed, vertical tab, form feed, carriage return, space, no-break space).
\<close>

definition white_space :: "char \<Rightarrow> bool" where
  "white_space c =
     (c \<in> {CHR 0x09, CHR 0x0A, CHR 0x0B, CHR 0x0C, CHR 0x0D, CHR 0x20, CHR 0xA0})"

definition trim :: "string \<Rightarrow> string" where
  "trim s = rev (dropWhile white_space (rev (dropWhile white_space s)))"

text \<open>
  \<^verbatim>\<open>encodeURIComponent\<close>: letters, digits and \<^verbatim>\<open>- _ . ! ~ * ' ( )\<close> are kept, every
  other character becomes the escapes of its UTF-8 bytes (one byte below 128, two bytes
  from 128 to 255). It throws only on a lone surrogate, which no string of the model
  holds.
\<close>

definition hex_escape :: "nat \<Rightarrow> string" where
  "hex_escape n = [CHR ''%'', ''0123456789ABCDEF'' ! (n div 16), ''0123456789ABCDEF'' ! (n mod 16)]"

definition unreserved :: "char \<Rightarrow> bool" where
  "unreserved c =
     (c \<in> set ''ABCDEFGHIJKLMNOPQRSTUVWXYZabcdefghijklmnopqrstuvwxyz0123456789-_.!~*()''
      \<or> c = CHR 0x27)"

definition encode_char :: "char \<Rightarrow> string" where
  "encode_char c =
     (if unreserved c then [c]
      else if (of_char c :: nat) < 128 then hex_escape (of_char c)
      else hex_escape (192 + of_char c div 64) @ hex_escape (128 + of_char c mod 64))"

definition encodeURIComponent :: "string \<Rightarrow> string" where
  "encodeURIComponent s = concat (map encode_char s)"

section \<open>The network and the parsed page\<close>

text \<open>
  What the browser answers is a parameter of the model. A \<^verbatim>\<open>fetch\<close> rejects or gives a
  response; reading the body of a response as JSON or as text rejects or gives a value.
  An element of the parsed page is what the script reads of it: the properties \<^verbatim>\<open>href\<close>,
  \<^verbatim>\<open>src\<close>, \<^verbatim>\<open>title\<close>, \<^verbatim>\<open>textContent\<close> and the methods \<^verbatim>\<open>querySelector\<close> and \<^verbatim>\<open>closest\<close>
  (\<open>None\<close> for null). \<^verbatim>\<open>new URL(src, base).href\<close> is the browser's URL parser: it throws
  a TypeError or gives the serialised URL.
\<close>

record request =
  req_url :: string
  req_cors :: bool

record response =
  res_ok :: bool
  res_json :: "js_error + jsval"
  res_text :: "js_error + string"

datatype element = Element
  (href: string) (src: string) (title: string) (textContent: string)
  (querySelector: "string \<Rightarrow> element option")
  (closest: "string \<Rightarrow> element option")

record document =
  querySelectorAll :: "string \<Rightarrow> element list"

record env =
  fetch :: "request \<Rightarrow> js_error + response"
  parseFromString :: "string \<Rightarrow> document"
  new_URL :: "string \<Rightarrow> string \<Rightarrow> js_error + string"

section \<open>Fetching the slides\<close>

definition slide :: "jsval \<Rightarrow> jsval \<Rightarrow> jsval \<Rightarrow> jsval \<Rightarrow> jsval" where
  "slide t d i u = Obj [(''title'', t), (''desc'', d), (''img'', i), (''url'', u)]"

definition sampleSlides :: "jsval list" where
  "sampleSlides =
     [slide (Str ''Sample Game 1'') (Str ''A sample game fallback'') (Str ''BG.jpg'')
        (Str ''https://ducky-dev.itch.io''),
      slide (Str ''Sample Game 2'') (Str ''Second sample'') (Str ''BG.jpg'')
        (Str ''https://ducky-dev.itch.io'')]"

definition absUrl :: "env \<Rightarrow> string \<Rightarrow> string \<Rightarrow> string" where
  "absUrl env s base = (case new_URL env s base of Inr h \<Rightarrow> h | Inl e \<Rightarrow> s)"

subsection \<open>The server proxy (lines 40 to 55)\<close>

definition api_request :: "string \<Rightarrow> request" where
  "api_request url =
     \<lparr>req_url = API_ENDPOINT @ ''?url='' @ encodeURIComponent url, req_cors = False\<rparr>"

text \<open>
  A call of \<^verbatim>\<open>fetch\<close> sends its request, which is added to the requests sent so far, and
  settles as the browser answers.
\<close>

definition do_fetch ::
    "env \<Rightarrow> request \<Rightarrow> request list \<Rightarrow> request list \<times> (js_error + response)" where
  "do_fetch env req sent = (sent @ [req], fetch env req)"

text \<open>
  The body of the first \<^verbatim>\<open>try\<close>, from the requests sent so far: the requests sent after
  it, and how it ends. \<open>Inl\<close> is an error thrown in it, \<open>Inr (Some xs)\<close> is
  \<^verbatim>\<open>return slides\<close>, \<open>Inr None\<close> is leaving the block without returning.
\<close>

definition proxy_tier ::
    "env \<Rightarrow> string \<Rightarrow> request list \<Rightarrow> request list \<times> (js_error + jsval list option)" where
  "proxy_tier env url sent =
     (let answer = do_fetch env (api_request url) sent in
      (fst answer,
       case snd answer of
         Inl e \<Rightarrow> Inl e
       | Inr res \<Rightarrow>
           if res_ok res then
             (case res_json res of
                Inl e \<Rightarrow> Inl e
              | Inr v \<Rightarrow>
                  (case v of
                     Arr xs \<Rightarrow> if length xs > 0 then Inr (Some xs) else Inr None
                   | _ \<Rightarrow> Inr None))
           else Inr None))"

subsection \<open>The direct fetch (lines 58 to 90)\<close>

definition page_request :: "string \<Rightarrow> request" where
  "page_request url = \<lparr>req_url = url, req_cors = True\<rparr>"

definition selectors :: "string list" where
  "selectors = [''.game-column'', ''.game_column'', ''.game_cell'', ''.project_cell'',
     ''.game_cell_wrapper'']"

fun first_match :: "document \<Rightarrow> string list \<Rightarrow> element list" where
  "first_match doc [] = []"
| "first_match doc (s # ss) =
     (let n = querySelectorAll doc s in if length n \<noteq> 0 then n else first_match doc ss)"

definition link_filter :: "element \<Rightarrow> bool" where
  "link_filter a = (test_itch_io (href a) \<or> str_includes (href a) ''/games/'')"

definition find_nodes :: "document \<Rightarrow> element list" where
  "find_nodes doc =
     (let nodes = first_match doc selectors in
      if length nodes = 0 then filter link_filter (querySelectorAll doc ''a'') else nodes)"

text \<open>\<^verbatim>\<open>x && f(x)\<close> for an element or null \<open>x\<close>: null when there is no element.\<close>

definition elem_and :: "element option \<Rightarrow> (element \<Rightarrow> jsval) \<Rightarrow> jsval" where
  "elem_and x f = (case x of None \<Rightarrow> Null | Some e \<Rightarrow> f e)"

text \<open>Line 80: the first anchor inside the node, or else the nearest one around it.\<close>

definition find_anchor :: "element \<Rightarrow> element option" where
  "find_anchor node =
     (case querySelector node ''a'' of Some x \<Rightarrow> Some x | None \<Rightarrow> closest node ''a'')"

text \<open>The callback of \<^verbatim>\<open>map\<close>, lines 78 to 87.\<close>

definition candidate :: "env \<Rightarrow> string \<Rightarrow> element \<Rightarrow> jsval" where
  "candidate env url node =
     (let a = find_anchor node;
          href' = (case a of Some x \<Rightarrow> href x | None \<Rightarrow> url);
          img = querySelector node ''img'';
          title' =
            js_or (js_or (js_or
              (elem_and (querySelector node ''.title'') (\<lambda>e. Str (trim (textContent e))))
              (elem_and a (\<lambda>x. Str (title x))))
              (elem_and a (\<lambda>x. Str (trim (textContent x)))))
              (Str ''Untitled'');
          desc =
            js_or (elem_and (querySelector node ''.description'')
                     (\<lambda>e. Str (trim (textContent e))))
              (Str []);
          imgsrc = (case img of Some i \<Rightarrow> Some (src i) | None \<Rightarrow> None)
      in slide title' desc
           (case imgsrc of
              Some s \<Rightarrow> if s \<noteq> [] then Str (absUrl env s url) else Str ''BG.jpg''
            | None \<Rightarrow> Str ''BG.jpg'')
           (Str href'))"

text \<open>The callback of \<^verbatim>\<open>filter\<close>: \<^verbatim>\<open>s && s.url\<close>.\<close>

definition keep :: "jsval \<Rightarrow> bool" where
  "keep s = (truthy s \<and> (case js_get s ''url'' of Inr u \<Rightarrow> truthy u | Inl e \<Rightarrow> False))"

definition parse_nodes :: "env \<Rightarrow> string \<Rightarrow> element list \<Rightarrow> jsval list" where
  "parse_nodes env url nodes = filter keep (map (candidate env url) (take 12 nodes))"

text \<open>
  The body of the second \<^verbatim>\<open>try\<close>, from the requests sent so far: the requests sent
  after it, and how it ends (\<open>Inl\<close> is an error thrown in it).
\<close>

definition direct_tier ::
    "env \<Rightarrow> string \<Rightarrow> request list \<Rightarrow> request list \<times> (js_error + jsval list)" where
  "direct_tier env url sent =
     (let answer = do_fetch env (page_request url) sent in
      (fst answer,
       case snd answer of
         Inl e \<Rightarrow> Inl e
       | Inr res \<Rightarrow>
           if \<not> res_ok res then Inl (Error ''Network response not ok'')
           else
             (case res_text res of
                Inl e \<Rightarrow> Inl e
              | Inr t \<Rightarrow>
                  let doc = parseFromString env t;
                      parsed = parse_nodes env url (find_nodes doc)
                  in if length parsed = 0 then Inl (Error ''No slides found'')
                     else Inr parsed)))"

text \<open>
  A \<^verbatim>\<open>try\<close> statement with a \<^verbatim>\<open>catch\<close>: an error thrown in the body is handed to the
  handler.
\<close>

definition try_catch :: "js_error + 'a \<Rightarrow> (js_error \<Rightarrow> js_error + 'a) \<Rightarrow> js_error + 'a" where
  "try_catch body handler = (case body of Inl err \<Rightarrow> handler err | Inr v \<Rightarrow> Inr v)"

text \<open>The second \<^verbatim>\<open>try\<close> with its \<^verbatim>\<open>catch\<close>, which logs and returns the fallback slides.\<close>

definition direct_or_sample ::
    "env \<Rightarrow> string \<Rightarrow> request list \<Rightarrow> request list \<times> (js_error + jsval list)" where
  "direct_or_sample env url sent =
     (let tried = direct_tier env url sent
      in (fst tried, try_catch (snd tried) (\<lambda>err. Inr sampleSlides)))"

text \<open>
  \<^verbatim>\<open>fetchSlidesFromItch\<close>: the requests it has sent, in order, and how its promise
  settles (\<open>Inl\<close> rejected with an error that has left the function, \<open>Inr\<close> fulfilled). The
  first \<^verbatim>\<open>catch\<close> logs the error and execution goes on after the statement.
\<close>

definition fetchSlidesFromItch :: "env \<Rightarrow> string \<Rightarrow> request list \<times> (js_error + jsval list)" where
  "fetchSlidesFromItch env url =
     (let tried = proxy_tier env url []
      in case try_catch (snd tried) (\<lambda>err. Inr None) of
           Inl err \<Rightarrow> (fst tried, Inl err)
         | Inr (Some xs) \<Rightarrow> (fst tried, Inr xs)
         | Inr None \<Rightarrow> direct_or_sample env url (fst tried))"

section \<open>Loading, and the event handlers\<close>

text \<open>Sequencing: the second statement runs when the first has not thrown.\<close>

definition then_do ::
    "completion \<times> state \<Rightarrow> (state \<Rightarrow> completion \<times> state) \<Rightarrow> completion \<times> state" where
  "then_do r f = (case fst r of Returned \<Rightarrow> f (snd r) | Threw e \<Rightarrow> (Threw e, snd r))"

text \<open>
  \<^verbatim>\<open>loadSlides\<close> runs in two parts. The call sets \<^verbatim>\<open>itchUrl\<close> and starts the fetch for it;
  other events may be handled while the fetch is awaited. When the promise of
  \<^verbatim>\<open>fetchSlidesFromItch\<close> has settled the function resumes: it stores the array, shows
  slide 0 and starts the timer.
\<close>

definition loadSlides_call :: "string \<Rightarrow> state \<Rightarrow> state" where
  "loadSlides_call forUrl st =
     (let u = (if forUrl \<noteq> [] then forUrl else itchUrl st)
      in st\<lparr>itchUrl := u, pending := pending st @ [u]\<rparr>)"

definition loadSlides_resume :: "js_error + jsval list \<Rightarrow> state \<Rightarrow> completion \<times> state" where
  "loadSlides_resume settled st =
     (case settled of
        Inl e \<Rightarrow> (Threw e, st)
      | Inr xs \<Rightarrow> then_do (showSlide 0 (st\<lparr>slides := xs\<rparr>)) (\<lambda>s. (Returned, startAuto s)))"

text \<open>\<^verbatim>\<open>loadSlides\<close> with nothing handled in between.\<close>

definition loadSlides :: "env \<Rightarrow> string \<Rightarrow> state \<Rightarrow> completion \<times> state" where
  "loadSlides env forUrl st =
     (let st1 = loadSlides_call forUrl st
      in loadSlides_resume (snd (fetchSlidesFromItch env (itchUrl st1)))
           (st1\<lparr>pending := butlast (pending st1)\<rparr>))"

text \<open>
  The \<^verbatim>\<open>keydown\<close> handler, lines 140 to 153, for the key and the answer of the prompt
  (\<open>None\<close> when it is cancelled).
\<close>

definition normalize :: "string \<Rightarrow> string" where
  "normalize input = (if \<not> test_scheme input then ''https://'' @ strip_slashes input else input)"

definition keydown :: "string \<Rightarrow> string option \<Rightarrow> state \<Rightarrow> completion \<times> state" where
  "keydown key answer st0 =
     then_do
       (if key = ''ArrowRight'' then then_do (nextSlide st0) (\<lambda>s. (Returned, startAuto s))
        else (Returned, st0))
       (\<lambda>st1.
          then_do
            (if key = ''ArrowLeft'' then then_do (prevSlide st1) (\<lambda>s. (Returned, startAuto s))
             else (Returned, st1))
            (\<lambda>st2.
               if key = ''F2'' then
                 (case answer of
                    None \<Rightarrow> (Returned, st2)
                  | Some input \<Rightarrow>
                      if input \<noteq> [] then (Returned, loadSlides_call (normalize input) st2)
                      else (Returned, st2))
               else (Returned, st2)))"

text \<open>
  The events of the page. A tick of an interval that has been cleared does not happen. The
  fetch that settles is one of the pending ones, with what the browser answered. An error
  that leaves a handler is reported by the browser and the page goes on.
\<close>

datatype event =
    KeyDown string "string option"
  | MouseEnter
  | MouseLeave
  | WindowLoad
  | Tick nat
  | FetchSettled nat env

fun step :: "event \<Rightarrow> state \<Rightarrow> state" where
  "step (KeyDown key answer) st = snd (keydown key answer st)"
| "step MouseEnter st = stopAuto st"
| "step MouseLeave st = startAuto st"
| "step WindowLoad st = loadSlides_call DEFAULT_ITCH_URL st"
| "step (Tick h) st = (if h \<in> fst ` set (intervals st) then snd (nextSlide st) else st)"
| "step (FetchSettled k env) st =
     (if k < length (pending st) then
        snd (loadSlides_resume (snd (fetchSlidesFromItch env (pending st ! k)))
               (st\<lparr>pending := take k (pending st) @ drop (Suc k) (pending st)\<rparr>))
      else st)"

fun run :: "event list \<Rightarrow> state \<Rightarrow> state" where
  "run [] st = st"
| "run (e # es) st = run es (step e st)"

section \<open>Invariants\<close>

text \<open>With slides to show, the current index is an index of the slide list.\<close>

definition index_valid :: "state \<Rightarrow> bool" where
  "index_valid st =
     (slides st \<noteq> [] \<longrightarrow> 0 \<le> current st \<and> current st < int (length (slides st)))"

text \<open>
  The intervals that are set are the one whose handle is in \<^verbatim>\<open>timer\<close>, if there is one,
  and that handle is not 0.
\<close>

definition one_timer :: "state \<Rightarrow> bool" where
  "one_timer st =
     (timer st \<noteq> Some 0 \<and>
      intervals st = (case timer st of None \<Rightarrow> [] | Some h \<Rightarrow> [(h, AUTO_INTERVAL_MS)]))"

section \<open>Example data\<close>

text \<open>Render targets that are still empty.\<close>

definition blank_view :: view where
  "blank_view = \<lparr>img_animation = [], title_animation = [], desc_animation = [],
     title_textContent = Str [], desc_textContent = Str [], img_src = Str [],
     img_alt = Str [], link_href = Str []\<rparr>"

text \<open>The page after the fallback slides have been stored.\<close>

definition two_slides :: state where
  "two_slides = (initial blank_view)\<lparr>slides := sampleSlides\<rparr>"

text \<open>Elements without descendants and outside every anchor.\<close>

definition leaf :: "string \<Rightarrow> string \<Rightarrow> string \<Rightarrow> string \<Rightarrow> element" where
  "leaf h s t x = Element h s t x (\<lambda>sel. None) (\<lambda>sel. None)"

text \<open>A game cell that holds only an image, and one that holds only an anchor.\<close>

definition image_cell :: "string \<Rightarrow> element" where
  "image_cell s =
     Element [] [] [] []
       (\<lambda>sel. if sel = ''img'' then Some (leaf [] s [] []) else None) (\<lambda>sel. None)"

definition anchor_cell :: "string \<Rightarrow> string \<Rightarrow> element" where
  "anchor_cell h x =
     Element [] [] [] []
       (\<lambda>sel. if sel = ''a'' then Some (leaf h [] [] x) else None) (\<lambda>sel. None)"

text \<open>A page whose game cells are the given elements, and that has no other anchors.\<close>

definition cells_page :: "element list \<Rightarrow> document" where
  "cells_page cells = \<lparr>querySelectorAll = (\<lambda>sel. if sel = ''.game_cell'' then cells else [])\<rparr>"

text \<open>A URL parser that knows one relative reference.\<close>

definition one_URL :: "string \<Rightarrow> string \<Rightarrow> js_error + string" where
  "one_URL s base =
     (if s = ''img/a.png'' \<and> base = ''https://site.example/list''
      then Inr ''https://site.example/img/a.png'' else Inl TypeError)"

text \<open>
  A browser whose proxy request settles as given and whose page request gives the given
  page.
\<close>

definition browser :: "js_error + response \<Rightarrow> document \<Rightarrow> env" where
  "browser proxy page =
     \<lparr>fetch = (\<lambda>q. if req_cors q then
                      Inr \<lparr>res_ok = True, res_json = Inl SyntaxError, res_text = Inr ''<html>''\<rparr>
                    else proxy),
      parseFromString = (\<lambda>t. page),
      new_URL = one_URL\<rparr>"

definition json_response :: "jsval \<Rightarrow> js_error + response" where
  "json_response v = Inr \<lparr>res_ok = True, res_json = Inr v, res_text = Inr []\<rparr>"

definition offline :: env where
  "offline = \<lparr>fetch = (\<lambda>q. Inl NetworkError), parseFromString = (\<lambda>t. cells_page []),
     new_URL = one_URL\<rparr>"

text \<open>
  What the browser reports for the \<^verbatim>\<open>src\<close> of an image and the \<^verbatim>\<open>href\<close> of an anchor: the
  empty string without the attribute, else the attribute resolved against the base URL of
  the element's document, or the attribute itself when that fails. A document made by
  \<^verbatim>\<open>DOMParser\<close> has the URL of the page that runs the script.
\<close>

definition reflect_url ::
    "(string \<Rightarrow> string \<Rightarrow> js_error + string) \<Rightarrow> string \<Rightarrow> string option \<Rightarrow> string" where
  "reflect_url parse document_url attr =
     (case attr of
        None \<Rightarrow> []
      | Some a \<Rightarrow> (case parse a document_url of Inr h \<Rightarrow> h | Inl e \<Rightarrow> a))"

text \<open>
  A URL parser that knows one relative reference against two bases, and gives a URL that
  begins with a scheme back as it is.
\<close>

definition two_URL :: "string \<Rightarrow> string \<Rightarrow> js_error + string" where
  "two_URL s base =
     (if s = ''img/a.png'' \<and> base = ''https://site.example/list''
      then Inr ''https://site.example/img/a.png''
      else if s = ''img/a.png'' \<and> base = ''https://host.example/''
      then Inr ''https://host.example/img/a.png''
      else if test_scheme s then Inr s
      else Inl TypeError)"

text \<open>
  The script runs on \<^verbatim>\<open>https://host.example/\<close> and the proxy does not answer; the page
  that is fetched has one game cell, which holds an image with the attribute
  \<^verbatim>\<open>src="img/a.png"\<close>.
\<close>

definition hosted :: env where
  "hosted =
     \<lparr>fetch = (\<lambda>q. if req_cors q then
                      Inr \<lparr>res_ok = True, res_json = Inl SyntaxError,
                           res_text = Inr ''<div class=game_cell><img src=img/a.png></div>''\<rparr>
                    else Inl NetworkError),
      parseFromString =
        (\<lambda>t. cells_page
           [image_cell (reflect_url two_URL ''https://host.example/'' (Some ''img/a.png''))]),
      new_URL = two_URL\<rparr>"

text \<open>The slide of the specification's proxy example.\<close>

definition slide_A :: jsval where
  "slide_A = slide (Str ''A'') (Str ''d'') (Str ''i.png'') (Str ''https://x'')"

text \<open>The page with three slides stored.\<close>

definition three_slides :: state where
  "three_slides = (initial blank_view)\<lparr>slides := sampleSlides @ [slide_A]\<rparr>"

text \<open>A page with two game cells: an anchor without \<^verbatim>\<open>href\<close>, and an image.\<close>

definition mixed_page :: document where
  "mixed_page = cells_page [anchor_cell [] ''Game'', image_cell ''img/a.png'']"

section \<open>Properties of showSlide\<close>

lemma js_rem_nonneg: "0 \<le> a \<Longrightarrow> 0 < n \<Longrightarrow> js_rem a n = a mod n"
  by (cases "a = 0") (simp_all add: js_rem_def)

lemma js_rem_neg: "a < 0 \<Longrightarrow> 0 < n \<Longrightarrow> js_rem a n = - ((- a) mod n)"
  by (simp add: js_rem_def)

lemma js_rem_twice:
  assumes "0 < n"
  shows "js_rem (js_rem i n + n) n = i mod n"
proof (cases "0 \<le> i")
  case True
  then have "js_rem i n = i mod n" using assms by (simp add: js_rem_nonneg)
  moreover have "0 \<le> i mod n + n" using assms by simp
  ultimately show ?thesis using assms by (simp add: js_rem_nonneg)
next
  case False
  then have r: "js_rem i n = - ((- i) mod n)" using assms by (simp add: js_rem_neg)
  have "(- i) mod n < n" using assms by simp
  then have "0 \<le> - ((- i) mod n) + n" by simp
  then have "js_rem (- ((- i) mod n) + n) n = (- ((- i) mod n) + n) mod n"
    using assms by (rule js_rem_nonneg)
  also have "\<dots> = (- ((- i) mod n)) mod n" by simp
  also have "\<dots> = (- (- i)) mod n" by (rule mod_minus_eq)
  finally show ?thesis using r by simp
qed

lemma showSlide_empty: "slides st = [] \<Longrightarrow> showSlide i st = (Returned, st)"
  by (simp add: showSlide_def)

lemma ulp_small: "a < 2 ^ 53 \<Longrightarrow> ulp a = 1"
  by (simp add: ulp.simps)

lemma ulp_at_2_53: "ulp 9007199254740992 = 2"
  by (subst ulp.simps) (simp add: ulp_small)

lemma ulp_above_2_53: "ulp 9007199254740995 = 2"
  by (subst ulp.simps) (simp add: ulp_small)

lemma round_double_exact:
  assumes "\<bar>x\<bar> \<le> 2 ^ 53"
  shows "round_double x = x"
proof (cases "\<bar>x\<bar> < 2 ^ 53")
  case True
  then have "nat \<bar>x\<bar> < 2 ^ 53" by (simp add: nat_less_iff)
  then have "ulp (nat \<bar>x\<bar>) = 1" by (rule ulp_small)
  then show ?thesis by (simp add: round_double_def Let_def mult_sgn_abs)
next
  case False
  then have a: "\<bar>x\<bar> = 9007199254740992" using assms by simp
  then have n: "nat \<bar>x\<bar> = 9007199254740992" by simp
  have "round_double x = sgn x * 9007199254740992"
    by (simp add: round_double_def Let_def n ulp_at_2_53)
  also have "\<dots> = sgn x * \<bar>x\<bar>" using a by simp
  finally show ?thesis by (simp add: mult_sgn_abs)
qed

lemma round_double_nonneg: "0 \<le> x \<Longrightarrow> 0 \<le> round_double x"
  by (simp add: round_double_def Let_def sgn_if)

lemma round_double_tie: "round_double 9007199254740995 = 9007199254740996"
  by (simp add: round_double_def Let_def ulp_above_2_53)

lemma showSlide_current:
  "slides st \<noteq> [] \<Longrightarrow>
   current (snd (showSlide i st)) =
     js_rem (js_add i (int (length (slides st)))) (int (length (slides st)))"
  by (simp add: showSlide_def Let_def)

lemma showSlide_frame:
  "slides (snd (showSlide i st)) = slides st"
  "timer (snd (showSlide i st)) = timer st"
  "itchUrl (snd (showSlide i st)) = itchUrl st"
  "intervals (snd (showSlide i st)) = intervals st"
  "last_handle (snd (showSlide i st)) = last_handle st"
  "pending (snd (showSlide i st)) = pending st"
  by (simp_all add: showSlide_def Let_def)

lemma showSlide_in_range:
  assumes "slides st \<noteq> []" and "- int (length (slides st)) \<le> i"
  shows "0 \<le> current (snd (showSlide i st))"
    and "current (snd (showSlide i st)) < int (length (slides st))"
proof -
  have n: "0 < int (length (slides st))" using assms(1) by simp
  have "0 \<le> i + int (length (slides st))" using assms(2) by simp
  then have "0 \<le> js_add i (int (length (slides st)))"
    unfolding js_add_def by (rule round_double_nonneg)
  then have c: "current (snd (showSlide i st)) =
      js_add i (int (length (slides st))) mod int (length (slides st))"
    using assms(1) n by (simp add: showSlide_current js_rem_nonneg)
  show "0 \<le> current (snd (showSlide i st))" using c n by simp
  show "current (snd (showSlide i st)) < int (length (slides st))" using c n by simp
qed

lemma js_rem_dvd: "n dvd a \<Longrightarrow> js_rem a n = 0"
  by (simp add: js_rem_def mod_eq_0_iff_dvd)

lemma showSlide_valid_or_dvd:
  assumes "slides st \<noteq> []"
    and "\<bar>i\<bar> + int (length (slides st)) \<le> 2 ^ 53"
    and "- int (length (slides st)) \<le> i \<or> int (length (slides st)) dvd i"
  shows "current (snd (showSlide i st)) = i mod int (length (slides st))"
proof -
  have n: "0 < int (length (slides st))" using assms(1) by simp
  have "\<bar>i + int (length (slides st))\<bar> \<le> 2 ^ 53" using assms(2) by linarith
  then have e: "js_add i (int (length (slides st))) = i + int (length (slides st))"
    unfolding js_add_def by (rule round_double_exact)
  show ?thesis
  proof (cases "- int (length (slides st)) \<le> i")
    case True
    then have "0 \<le> i + int (length (slides st))" by simp
    then show ?thesis using assms(1) n e by (simp add: showSlide_current js_rem_nonneg)
  next
    case False
    then have d: "int (length (slides st)) dvd i" using assms(3) by simp
    then have "int (length (slides st)) dvd i + int (length (slides st))" by simp
    then have "js_rem (i + int (length (slides st))) (int (length (slides st))) = 0"
      by (rule js_rem_dvd)
    moreover have "i mod int (length (slides st)) = 0" using d by simp
    ultimately show ?thesis using assms(1) e by (simp add: showSlide_current)
  qed
qed

text \<open>
  C1, as amended. For a non-empty slide list of length \<open>n\<close> and an integer \<open>i\<close> with
  \<open>|i| + n\<close> at most \<open>2 ^ 53\<close>, so that the sum of line 99 is exact, that is at least \<open>-n\<close> or
  a multiple of \<open>n\<close> (every call of the script passes 0, \<open>current + 1\<close> or \<open>current - 1\<close>),
  \<^verbatim>\<open>showSlide(i)\<close> sets the current index to \<open>(i + n) % n\<close>, which then is
  \<open>((i % n) + n) % n\<close> and a valid index.
\<close>

theorem showSlide_wraps:
  assumes "slides st \<noteq> []"
    and "\<bar>i\<bar> + int (length (slides st)) \<le> 2 ^ 53"
    and "- int (length (slides st)) \<le> i \<or> int (length (slides st)) dvd i"
  shows "current (snd (showSlide i st)) =
           js_rem (js_rem i (int (length (slides st))) + int (length (slides st)))
             (int (length (slides st)))
         \<and> 0 \<le> current (snd (showSlide i st))
         \<and> current (snd (showSlide i st)) < int (length (slides st))"
proof -
  have n: "0 < int (length (slides st))" using assms(1) by simp
  have "current (snd (showSlide i st)) = i mod int (length (slides st))"
    using assms by (rule showSlide_valid_or_dvd)
  then show ?thesis using n by (simp add: js_rem_twice)
qed

theorem showSlide_wraps_witness:
  "current (snd (showSlide (- 1) two_slides)) = 1
   \<and> js_rem (js_rem (- 1) 2 + 2) 2 = 1
   \<and> current (snd (showSlide (- 6) two_slides)) = 0
   \<and> js_rem (js_rem (- 6) 2 + 2) 2 = 0
   \<and> length (slides two_slides) = 2"
proof -
  have len: "length (slides two_slides) = 2"
    by (simp add: two_slides_def sampleSlides_def)
  have ne: "slides two_slides \<noteq> []" using len by auto
  have a: "- int (length (slides two_slides)) \<le> - 1 \<or> int (length (slides two_slides)) dvd - 1"
    using len by simp
  have a': "\<bar>- 1\<bar> + int (length (slides two_slides)) \<le> 2 ^ 53" using len by simp
  have b: "- int (length (slides two_slides)) \<le> - 6 \<or> int (length (slides two_slides)) dvd - 6"
    using len by simp
  have b': "\<bar>- 6\<bar> + int (length (slides two_slides)) \<le> 2 ^ 53" using len by simp
  show ?thesis
    using showSlide_wraps [OF ne a' a] showSlide_wraps [OF ne b' b] len
    by (simp add: js_rem_def)
qed

text \<open>
  C1 as the specification states it fails below \<open>-n\<close>: with two slides, \<^verbatim>\<open>showSlide(-5)\<close>
  sets the current index to \<open>-1\<close>, where \<open>((-5 % 2) + 2) % 2\<close> is 1, and then throws on
  reading the title of \<^verbatim>\<open>slides[-1]\<close>. It also fails where the sum is not exact: with
  three slides, \<^verbatim>\<open>showSlide(2 ** 53)\<close> adds 3 and gets \<open>2 ^ 53 + 4\<close>, so the current index is
  0, where \<open>((2 ^ 53 % 3) + 3) % 3\<close> is 2.
\<close>

theorem showSlide_wraps_counterexample:
  "length (slides two_slides) = 2
   \<and> current (snd (showSlide (- 5) two_slides)) = - 1
   \<and> js_rem (js_rem (- 5) 2 + 2) 2 = 1
   \<and> fst (showSlide (- 5) two_slides) = Threw TypeError
   \<and> length (slides three_slides) = 3
   \<and> current (snd (showSlide 9007199254740992 three_slides)) = 0
   \<and> js_rem (js_rem 9007199254740992 3 + 3) 3 = 2"
proof -
  have "\<bar>- 5 + 2\<bar> \<le> (2 :: int) ^ 53" by simp
  then have "round_double (- 5 + 2) = - 5 + 2" by (rule round_double_exact)
  then have two: "js_add (- 5) 2 = - 3" by (simp add: js_add_def)
  have three: "js_add 9007199254740992 3 = 9007199254740996"
    by (simp add: js_add_def round_double_tie)
  show ?thesis
    using two three
    by (simp add: two_slides_def three_slides_def sampleSlides_def initial_def showSlide_def
        js_rem_def js_index_def render_def Let_def)
qed

text \<open>
  C5. On an empty slide list \<^verbatim>\<open>showSlide\<close> returns without throwing and leaves every
  variable and every render target as it was.
\<close>

theorem showSlide_empty_noop:
  "slides st = [] \<Longrightarrow> showSlide i st = (Returned, st)"
  by (simp add: showSlide_def)

theorem showSlide_empty_noop_witness:
  "showSlide 3 (initial blank_view) = (Returned, initial blank_view)"
  using showSlide_empty_noop [of "initial blank_view" 3] by (simp add: initial_def)

section \<open>Properties of fetchSlidesFromItch\<close>

lemma proxy_tier_sent: "fst (proxy_tier env url sent) = sent @ [api_request url]"
  by (simp add: proxy_tier_def do_fetch_def Let_def)

lemma proxy_tier_Some:
  "snd (proxy_tier env url sent) = Inr (Some xs) \<longleftrightarrow>
     (\<exists>res. fetch env (api_request url) = Inr res \<and> res_ok res \<and>
        res_json res = Inr (Arr xs) \<and> xs \<noteq> [])"
  by (auto simp: proxy_tier_def do_fetch_def Let_def split: sum.splits jsval.splits if_splits)

lemma direct_tier_sent: "fst (direct_tier env url sent) = sent @ [page_request url]"
  by (simp add: direct_tier_def do_fetch_def Let_def)

lemma direct_tier_nonempty:
  "snd (direct_tier env url sent) = Inr parsed \<Longrightarrow> parsed \<noteq> []"
  by (auto simp: direct_tier_def do_fetch_def Let_def split: sum.splits if_splits)

lemma direct_or_sample_eq:
  "direct_or_sample env url sent =
     (sent @ [page_request url],
      Inr (case fetch env (page_request url) of
                    Inl e \<Rightarrow> sampleSlides
                  | Inr page \<Rightarrow>
                      if res_ok page then
                        (case res_text page of
                           Inl e \<Rightarrow> sampleSlides
                         | Inr t \<Rightarrow>
                             if parse_nodes env url (find_nodes (parseFromString env t)) = []
                             then sampleSlides
                             else parse_nodes env url (find_nodes (parseFromString env t)))
                      else sampleSlides))"
  by (simp add: direct_or_sample_def direct_tier_def do_fetch_def try_catch_def Let_def
      split: sum.splits)

lemma direct_or_sample_nonempty:
  "\<exists>xs. snd (direct_or_sample env url sent) = Inr xs \<and> xs \<noteq> []"
  by (auto simp: direct_or_sample_def try_catch_def sampleSlides_def Let_def
      dest: direct_tier_nonempty split: sum.splits)

lemma fetchSlides_direct:
  "\<forall>xs. snd (proxy_tier env url []) \<noteq> Inr (Some xs) \<Longrightarrow>
   fetchSlidesFromItch env url = direct_or_sample env url [api_request url]"
  by (simp add: fetchSlidesFromItch_def try_catch_def Let_def proxy_tier_sent
      split: sum.splits option.splits)

lemma fetchSlides_proxy:
  "snd (proxy_tier env url []) = Inr (Some xs) \<Longrightarrow>
   fetchSlidesFromItch env url = ([api_request url], Inr xs)"
  by (simp add: fetchSlidesFromItch_def try_catch_def Let_def proxy_tier_sent)

lemma first_match_none:
  "\<forall>s \<in> set ss. querySelectorAll doc s = [] \<Longrightarrow> first_match doc ss = []"
  by (induction ss) (simp_all add: Let_def)

lemma candidate_url_field:
  "js_get (candidate env url node) ''url'' =
     Inr (Str (case find_anchor node of Some x \<Rightarrow> href x | None \<Rightarrow> url))"
  by (simp add: candidate_def slide_def Let_def)

lemma keep_candidate:
  "keep (candidate env url node) =
     ((case find_anchor node of Some x \<Rightarrow> href x | None \<Rightarrow> url) \<noteq> [])"
  by (simp add: keep_def candidate_url_field) (simp add: candidate_def slide_def Let_def)

lemma bare_page_sample:
  "direct_or_sample (browser p (cells_page [])) url sent =
     (sent @ [page_request url], Inr sampleSlides)"
  by (simp add: direct_or_sample_eq browser_def page_request_def cells_page_def find_nodes_def
      selectors_def parse_nodes_def)

lemma browser_proxy: "fetch (browser p page) (api_request url) = p"
  by (simp add: browser_def api_request_def)

lemma fetchSlides_nonempty:
  "\<exists>xs. snd (fetchSlidesFromItch env url) = Inr xs \<and> xs \<noteq> []"
proof (cases "\<exists>xs. snd (proxy_tier env url []) = Inr (Some xs)")
  case True
  then obtain xs where p: "snd (proxy_tier env url []) = Inr (Some xs)" by blast
  then have "xs \<noteq> []" by (auto simp: proxy_tier_Some)
  with p show ?thesis by (simp add: fetchSlides_proxy)
next
  case False
  then show ?thesis by (simp add: fetchSlides_direct direct_or_sample_nonempty)
qed

text \<open>
  C2. \<^verbatim>\<open>fetchSlidesFromItch\<close> never rejects: whatever the URL, and however the two
  requests, the reading of their bodies and the parsing end, its promise is fulfilled with
  a non-empty array.
\<close>

theorem fetchSlides_total:
  "\<exists>xs. snd (fetchSlidesFromItch env url) = Inr xs \<and> xs \<noteq> []"
  by (rule fetchSlides_nonempty)

theorem fetchSlides_total_witness:
  "snd (fetchSlidesFromItch offline DEFAULT_ITCH_URL) = Inr sampleSlides \<and> sampleSlides \<noteq> []"
  using fetchSlides_total [of offline DEFAULT_ITCH_URL]
  by (simp add: fetchSlidesFromItch_def try_catch_def proxy_tier_def do_fetch_def offline_def
      direct_or_sample_def direct_tier_def sampleSlides_def Let_def)

text \<open>
  C6. The array of the proxy is returned as it is, and the proxy request is the only
  request sent, exactly when that request gives a successful response whose body decodes
  to a non-empty array. When the request fails, the status is not a success, the body
  does not decode, or it decodes to something that is not a non-empty array, a second
  request is sent, for the page itself with the mode \<^verbatim>\<open>cors\<close>, and the result is made from
  the answer to that request: the slides scraped from the page, or the fallback slides.
  The requests are recorded by the calls of \<^verbatim>\<open>fetch\<close> themselves.
\<close>

theorem proxy_first:
  "(fetch env (api_request url) = Inr res \<and> res_ok res \<and> res_json res = Inr (Arr xs) \<and> xs \<noteq> []
      \<longrightarrow> fetchSlidesFromItch env url = ([api_request url], Inr xs))
   \<and> (fetch env (api_request url) = Inl e
      \<longrightarrow> fst (fetchSlidesFromItch env url) = [api_request url, page_request url])
   \<and> (fetch env (api_request url) = Inr res \<and> \<not> res_ok res
      \<longrightarrow> fst (fetchSlidesFromItch env url) = [api_request url, page_request url])
   \<and> (fetch env (api_request url) = Inr res \<and> res_json res = Inl e
      \<longrightarrow> fst (fetchSlidesFromItch env url) = [api_request url, page_request url])
   \<and> (fetch env (api_request url) = Inr res \<and> res_json res = Inr v \<and> (\<forall>ys. v = Arr ys \<longrightarrow> ys = [])
      \<longrightarrow> fst (fetchSlidesFromItch env url) = [api_request url, page_request url])
   \<and> (fst (fetchSlidesFromItch env url) = [api_request url] \<longleftrightarrow>
        (\<exists>r ys. fetch env (api_request url) = Inr r \<and> res_ok r \<and>
           res_json r = Inr (Arr ys) \<and> ys \<noteq> []))
   \<and> (fst (fetchSlidesFromItch env url) \<noteq> [api_request url]
      \<longrightarrow> fst (fetchSlidesFromItch env url) = [api_request url, page_request url]
          \<and> req_url (page_request url) = url \<and> req_cors (page_request url)
          \<and> snd (fetchSlidesFromItch env url) =
              Inr (case fetch env (page_request url) of
                  Inl e \<Rightarrow> sampleSlides
                | Inr page \<Rightarrow>
                    if res_ok page then
                      (case res_text page of
                         Inl e \<Rightarrow> sampleSlides
                       | Inr t \<Rightarrow>
                           if parse_nodes env url (find_nodes (parseFromString env t)) = []
                           then sampleSlides
                           else parse_nodes env url (find_nodes (parseFromString env t)))
                    else sampleSlides))"
proof -
  have direct: "fetchSlidesFromItch env url =
      ([api_request url, page_request url],
       Inr (case fetch env (page_request url) of
                  Inl e \<Rightarrow> sampleSlides
                | Inr page \<Rightarrow>
                    if res_ok page then
                      (case res_text page of
                         Inl e \<Rightarrow> sampleSlides
                       | Inr t \<Rightarrow>
                           if parse_nodes env url (find_nodes (parseFromString env t)) = []
                           then sampleSlides
                           else parse_nodes env url (find_nodes (parseFromString env t)))
                    else sampleSlides))"
    if "\<forall>xs. snd (proxy_tier env url []) \<noteq> Inr (Some xs)"
    using that by (simp add: fetchSlides_direct direct_or_sample_eq)
  have once: "fst (fetchSlidesFromItch env url) = [api_request url] \<longleftrightarrow>
        (\<exists>r ys. fetch env (api_request url) = Inr r \<and> res_ok r \<and>
           res_json r = Inr (Arr ys) \<and> ys \<noteq> [])"
  proof (cases "\<exists>xs. snd (proxy_tier env url []) = Inr (Some xs)")
    case True
    then obtain xs where p: "snd (proxy_tier env url []) = Inr (Some xs)" by blast
    then have "fst (fetchSlidesFromItch env url) = [api_request url]"
      by (simp add: fetchSlides_proxy)
    moreover have "\<exists>r ys. fetch env (api_request url) = Inr r \<and> res_ok r \<and>
           res_json r = Inr (Arr ys) \<and> ys \<noteq> []"
      using p by (auto simp: proxy_tier_Some)
    ultimately show ?thesis by simp
  next
    case False
    then have n: "\<forall>xs. snd (proxy_tier env url []) \<noteq> Inr (Some xs)" by simp
    then have "fst (fetchSlidesFromItch env url) \<noteq> [api_request url]"
      by (simp add: direct)
    moreover have "\<not> (\<exists>r ys. fetch env (api_request url) = Inr r \<and> res_ok r \<and>
           res_json r = Inr (Arr ys) \<and> ys \<noteq> [])"
      using n by (simp add: proxy_tier_Some)
    ultimately show ?thesis by simp
  qed
  show ?thesis
  proof (intro conjI impI)
    assume "fetch env (api_request url) = Inr res \<and> res_ok res \<and>
        res_json res = Inr (Arr xs) \<and> xs \<noteq> []"
    then have "snd (proxy_tier env url []) = Inr (Some xs)" by (auto simp: proxy_tier_Some)
    then show "fetchSlidesFromItch env url = ([api_request url], Inr xs)"
      by (rule fetchSlides_proxy)
  next
    assume "fetch env (api_request url) = Inl e"
    then have "\<forall>xs. snd (proxy_tier env url []) \<noteq> Inr (Some xs)"
      by (simp add: proxy_tier_Some)
    then show "fst (fetchSlidesFromItch env url) = [api_request url, page_request url]"
      by (simp add: direct)
  next
    assume "fetch env (api_request url) = Inr res \<and> \<not> res_ok res"
    then have "\<forall>xs. snd (proxy_tier env url []) \<noteq> Inr (Some xs)"
      by (auto simp: proxy_tier_Some)
    then show "fst (fetchSlidesFromItch env url) = [api_request url, page_request url]"
      by (simp add: direct)
  next
    assume "fetch env (api_request url) = Inr res \<and> res_json res = Inl e"
    then have "\<forall>xs. snd (proxy_tier env url []) \<noteq> Inr (Some xs)"
      by (auto simp: proxy_tier_Some)
    then show "fst (fetchSlidesFromItch env url) = [api_request url, page_request url]"
      by (simp add: direct)
  next
    assume "fetch env (api_request url) = Inr res \<and> res_json res = Inr v \<and>
        (\<forall>ys. v = Arr ys \<longrightarrow> ys = [])"
    then have "\<forall>xs. snd (proxy_tier env url []) \<noteq> Inr (Some xs)"
      by (auto simp: proxy_tier_Some)
    then show "fst (fetchSlidesFromItch env url) = [api_request url, page_request url]"
      by (simp add: direct)
  next
    show "fst (fetchSlidesFromItch env url) = [api_request url] \<longleftrightarrow>
        (\<exists>r ys. fetch env (api_request url) = Inr r \<and> res_ok r \<and>
           res_json r = Inr (Arr ys) \<and> ys \<noteq> [])"
      by (rule once)
  next
    assume a: "fst (fetchSlidesFromItch env url) \<noteq> [api_request url]"
    have n: "\<forall>xs. snd (proxy_tier env url []) \<noteq> Inr (Some xs)"
    proof (intro allI notI)
      fix xs assume "snd (proxy_tier env url []) = Inr (Some xs)"
      then have "fst (fetchSlidesFromItch env url) = [api_request url]"
        by (simp add: fetchSlides_proxy)
      with a show False by simp
    qed
    show "fst (fetchSlidesFromItch env url) = [api_request url, page_request url]"
      using n by (simp add: direct)
    show "req_url (page_request url) = url" by (simp add: page_request_def)
    show "req_cors (page_request url)" by (simp add: page_request_def)
    show "snd (fetchSlidesFromItch env url) =
        Inr (case fetch env (page_request url) of
                  Inl e \<Rightarrow> sampleSlides
                | Inr page \<Rightarrow>
                    if res_ok page then
                      (case res_text page of
                         Inl e \<Rightarrow> sampleSlides
                       | Inr t \<Rightarrow>
                           if parse_nodes env url (find_nodes (parseFromString env t)) = []
                           then sampleSlides
                           else parse_nodes env url (find_nodes (parseFromString env t)))
                    else sampleSlides)"
      using n by (simp add: direct)
  qed
qed

theorem proxy_first_witness:
  "fetchSlidesFromItch (browser (json_response (Arr [slide_A])) (cells_page [])) DEFAULT_ITCH_URL =
     ([api_request DEFAULT_ITCH_URL], Inr [slide_A])
   \<and> fetchSlidesFromItch (browser (Inl NetworkError) (cells_page [])) DEFAULT_ITCH_URL =
     ([api_request DEFAULT_ITCH_URL, page_request DEFAULT_ITCH_URL], Inr sampleSlides)
   \<and> fetchSlidesFromItch
       (browser (Inr \<lparr>res_ok = False, res_json = Inr (Arr [slide_A]), res_text = Inr []\<rparr>)
          (cells_page [])) DEFAULT_ITCH_URL =
     ([api_request DEFAULT_ITCH_URL, page_request DEFAULT_ITCH_URL], Inr sampleSlides)
   \<and> fetchSlidesFromItch
       (browser (Inr \<lparr>res_ok = True, res_json = Inl SyntaxError, res_text = Inr []\<rparr>)
          (cells_page [])) DEFAULT_ITCH_URL =
     ([api_request DEFAULT_ITCH_URL, page_request DEFAULT_ITCH_URL], Inr sampleSlides)
   \<and> fetchSlidesFromItch (browser (json_response (Arr [])) (cells_page [])) DEFAULT_ITCH_URL =
     ([api_request DEFAULT_ITCH_URL, page_request DEFAULT_ITCH_URL], Inr sampleSlides)
   \<and> fetchSlidesFromItch (browser (json_response (Obj [])) (cells_page [])) DEFAULT_ITCH_URL =
     ([api_request DEFAULT_ITCH_URL, page_request DEFAULT_ITCH_URL], Inr sampleSlides)
   \<and> fetchSlidesFromItch
       (browser (Inl NetworkError) (cells_page [image_cell ''https://img.example/a.png'']))
       DEFAULT_ITCH_URL =
     ([api_request DEFAULT_ITCH_URL, page_request DEFAULT_ITCH_URL],
      Inr [slide (Str ''Untitled'') (Str []) (Str ''https://img.example/a.png'')
             (Str DEFAULT_ITCH_URL)])"
proof -
  have bare: "(case fetch (browser p (cells_page [])) (page_request url) of
                  Inl e \<Rightarrow> sampleSlides
                | Inr page \<Rightarrow>
                    if res_ok page then
                      (case res_text page of
                         Inl e \<Rightarrow> sampleSlides
                       | Inr t \<Rightarrow>
                           if parse_nodes (browser p (cells_page [])) url
                                (find_nodes (parseFromString (browser p (cells_page [])) t)) = []
                           then sampleSlides
                           else parse_nodes (browser p (cells_page [])) url
                                  (find_nodes (parseFromString (browser p (cells_page [])) t)))
                    else sampleSlides) = sampleSlides" for p url
    by (simp add: browser_def page_request_def cells_page_def find_nodes_def selectors_def
        parse_nodes_def)
  have scraped: "parse_nodes
        (browser (Inl NetworkError) (cells_page [image_cell ''https://img.example/a.png'']))
        DEFAULT_ITCH_URL
        (find_nodes (parseFromString
           (browser (Inl NetworkError) (cells_page [image_cell ''https://img.example/a.png'']))
           ''<html>'')) =
      [slide (Str ''Untitled'') (Str []) (Str ''https://img.example/a.png'')
         (Str DEFAULT_ITCH_URL)]"
    by (simp add: browser_def cells_page_def find_nodes_def selectors_def parse_nodes_def
        candidate_def find_anchor_def image_cell_def leaf_def elem_and_def js_or_def
        absUrl_def one_URL_def keep_def slide_def Let_def DEFAULT_ITCH_URL_def)
  have page: "fetch (browser p d) (page_request url) =
      Inr \<lparr>res_ok = True, res_json = Inl SyntaxError, res_text = Inr ''<html>''\<rparr>" for p d url
    by (simp add: browser_def page_request_def)
  note net = proxy_first [THEN conjunct2, THEN conjunct1, rule_format]
  note status = proxy_first [THEN conjunct2, THEN conjunct2, THEN conjunct1, rule_format]
  note body = proxy_first [THEN conjunct2, THEN conjunct2, THEN conjunct2, THEN conjunct1,
      rule_format]
  note shape = proxy_first [THEN conjunct2, THEN conjunct2, THEN conjunct2, THEN conjunct2,
      THEN conjunct1, rule_format]
  note result = proxy_first [THEN conjunct2, THEN conjunct2, THEN conjunct2, THEN conjunct2,
      THEN conjunct2, THEN conjunct2, rule_format, THEN conjunct2, THEN conjunct2,
      THEN conjunct2]
  have fallback: "fetchSlidesFromItch (browser p (cells_page [])) DEFAULT_ITCH_URL =
      ([api_request DEFAULT_ITCH_URL, page_request DEFAULT_ITCH_URL], Inr sampleSlides)"
    if f: "fst (fetchSlidesFromItch (browser p (cells_page [])) DEFAULT_ITCH_URL) =
      [api_request DEFAULT_ITCH_URL, page_request DEFAULT_ITCH_URL]" for p
  proof -
    have n: "fst (fetchSlidesFromItch (browser p (cells_page [])) DEFAULT_ITCH_URL) \<noteq>
        [api_request DEFAULT_ITCH_URL]"
      using f by simp
    have "snd (fetchSlidesFromItch (browser p (cells_page [])) DEFAULT_ITCH_URL) =
        Inr sampleSlides"
      using result [OF n] by (simp only: bare)
    with f show ?thesis by (simp add: prod_eq_iff)
  qed
  have 1: "fetchSlidesFromItch (browser (json_response (Arr [slide_A])) (cells_page []))
        DEFAULT_ITCH_URL = ([api_request DEFAULT_ITCH_URL], Inr [slide_A])"
    by (rule proxy_first [of _ _
          "\<lparr>res_ok = True, res_json = Inr (Arr [slide_A]), res_text = Inr []\<rparr>",
          THEN conjunct1, rule_format])
      (simp add: browser_proxy json_response_def)
  have 2: "fetchSlidesFromItch (browser (Inl NetworkError) (cells_page [])) DEFAULT_ITCH_URL =
       ([api_request DEFAULT_ITCH_URL, page_request DEFAULT_ITCH_URL], Inr sampleSlides)"
    by (rule fallback, rule net [of _ _ NetworkError]) (simp add: browser_proxy)
  have 3: "fetchSlidesFromItch
         (browser (Inr \<lparr>res_ok = False, res_json = Inr (Arr [slide_A]), res_text = Inr []\<rparr>)
            (cells_page [])) DEFAULT_ITCH_URL =
       ([api_request DEFAULT_ITCH_URL, page_request DEFAULT_ITCH_URL], Inr sampleSlides)"
    by (rule fallback,
        rule status [of _ _ "\<lparr>res_ok = False, res_json = Inr (Arr [slide_A]), res_text = Inr []\<rparr>"])
      (simp add: browser_proxy)
  have 4: "fetchSlidesFromItch
         (browser (Inr \<lparr>res_ok = True, res_json = Inl SyntaxError, res_text = Inr []\<rparr>)
            (cells_page [])) DEFAULT_ITCH_URL =
       ([api_request DEFAULT_ITCH_URL, page_request DEFAULT_ITCH_URL], Inr sampleSlides)"
    by (rule fallback,
        rule body [of _ _ "\<lparr>res_ok = True, res_json = Inl SyntaxError, res_text = Inr []\<rparr>"
          SyntaxError])
      (simp add: browser_proxy)
  have 5: "fetchSlidesFromItch (browser (json_response (Arr [])) (cells_page []))
        DEFAULT_ITCH_URL =
       ([api_request DEFAULT_ITCH_URL, page_request DEFAULT_ITCH_URL], Inr sampleSlides)"
    by (rule fallback,
        rule shape [of _ _ "\<lparr>res_ok = True, res_json = Inr (Arr []), res_text = Inr []\<rparr>"
          "Arr []"])
      (simp add: browser_proxy json_response_def)
  have 6: "fetchSlidesFromItch (browser (json_response (Obj [])) (cells_page []))
        DEFAULT_ITCH_URL =
       ([api_request DEFAULT_ITCH_URL, page_request DEFAULT_ITCH_URL], Inr sampleSlides)"
    by (rule fallback,
        rule shape [of _ _ "\<lparr>res_ok = True, res_json = Inr (Obj []), res_text = Inr []\<rparr>"
          "Obj []"])
      (simp add: browser_proxy json_response_def)
  have f7: "fst (fetchSlidesFromItch
         (browser (Inl NetworkError) (cells_page [image_cell ''https://img.example/a.png'']))
         DEFAULT_ITCH_URL) = [api_request DEFAULT_ITCH_URL, page_request DEFAULT_ITCH_URL]"
    by (rule net [of _ _ NetworkError]) (simp add: browser_proxy)
  then have n7: "fst (fetchSlidesFromItch
         (browser (Inl NetworkError) (cells_page [image_cell ''https://img.example/a.png'']))
         DEFAULT_ITCH_URL) \<noteq> [api_request DEFAULT_ITCH_URL]"
    by simp
  have "snd (fetchSlidesFromItch
         (browser (Inl NetworkError) (cells_page [image_cell ''https://img.example/a.png'']))
         DEFAULT_ITCH_URL) =
       Inr [slide (Str ''Untitled'') (Str []) (Str ''https://img.example/a.png'')
              (Str DEFAULT_ITCH_URL)]"
    using result [OF n7] by (simp add: page scraped)
  with f7 have 7: "fetchSlidesFromItch
         (browser (Inl NetworkError) (cells_page [image_cell ''https://img.example/a.png'']))
         DEFAULT_ITCH_URL =
       ([api_request DEFAULT_ITCH_URL, page_request DEFAULT_ITCH_URL],
        Inr [slide (Str ''Untitled'') (Str []) (Str ''https://img.example/a.png'')
               (Str DEFAULT_ITCH_URL)])"
    by (simp add: prod_eq_iff)
  from 1 2 3 4 5 6 7 show ?thesis by (intro conjI)
qed

text \<open>
  C4. When the proxy does not deliver and the fetched page has no node for any of the five
  selectors and no anchor that passes the link filter, the result is the fallback list:
  two slides, titled Sample Game 1 and Sample Game 2, whose \<^verbatim>\<open>url\<close> is the default profile
  URL.
\<close>

theorem fallback_on_bare_page:
  assumes "\<forall>xs. snd (proxy_tier env url []) \<noteq> Inr (Some xs)"
    and "fetch env (page_request url) = Inr res" and "res_ok res"
    and "res_text res = Inr markup"
    and "\<forall>s \<in> set selectors. querySelectorAll (parseFromString env markup) s = []"
    and "filter link_filter (querySelectorAll (parseFromString env markup) ''a'') = []"
  shows "snd (fetchSlidesFromItch env url) =
           Inr [slide (Str ''Sample Game 1'') (Str ''A sample game fallback'') (Str ''BG.jpg'')
                  (Str DEFAULT_ITCH_URL),
                slide (Str ''Sample Game 2'') (Str ''Second sample'') (Str ''BG.jpg'')
                  (Str DEFAULT_ITCH_URL)]"
proof -
  have "first_match (parseFromString env markup) selectors = []"
    using assms(5) by (rule first_match_none)
  then have "find_nodes (parseFromString env markup) = []"
    using assms(6) by (simp add: find_nodes_def)
  then have "direct_or_sample env url [api_request url] =
      ([api_request url, page_request url], Inr sampleSlides)"
    using assms(2-4) by (simp add: direct_or_sample_eq parse_nodes_def)
  then show ?thesis
    using assms(1) by (simp add: fetchSlides_direct sampleSlides_def DEFAULT_ITCH_URL_def)
qed

theorem fallback_on_bare_page_witness:
  "snd (fetchSlidesFromItch (browser (Inl NetworkError) (cells_page [])) ''https://nobody.itch.io'') =
     Inr [slide (Str ''Sample Game 1'') (Str ''A sample game fallback'') (Str ''BG.jpg'')
            (Str DEFAULT_ITCH_URL),
          slide (Str ''Sample Game 2'') (Str ''Second sample'') (Str ''BG.jpg'')
            (Str DEFAULT_ITCH_URL)]"
proof (rule fallback_on_bare_page)
  show "\<forall>xs. snd (proxy_tier (browser (Inl NetworkError) (cells_page []))
          ''https://nobody.itch.io'' []) \<noteq> Inr (Some xs)"
    by (simp add: proxy_tier_def do_fetch_def browser_def api_request_def Let_def)
  show "fetch (browser (Inl NetworkError) (cells_page [])) (page_request ''https://nobody.itch.io'') =
          Inr \<lparr>res_ok = True, res_json = Inl SyntaxError, res_text = Inr ''<html>''\<rparr>"
    by (simp add: browser_def page_request_def)
  show "res_ok \<lparr>res_ok = True, res_json = Inl SyntaxError, res_text = Inr ''<html>''\<rparr>" by simp
  show "res_text \<lparr>res_ok = True, res_json = Inl SyntaxError, res_text = Inr ''<html>''\<rparr> = Inr ''<html>''"
    by simp
  show "\<forall>s \<in> set selectors.
          querySelectorAll (parseFromString (browser (Inl NetworkError) (cells_page [])) ''<html>'') s = []"
    by (simp add: browser_def cells_page_def)
  show "filter link_filter
          (querySelectorAll (parseFromString (browser (Inl NetworkError) (cells_page [])) ''<html>'') ''a'') = []"
    by (simp add: browser_def cells_page_def)
qed

text \<open>
  C8. The claim fails on the code. The script does not read the attribute of the image but
  its property \<^verbatim>\<open>src\<close>, which the browser has resolved already, against the URL of the
  document that holds the image; for the document that \<^verbatim>\<open>DOMParser\<close> makes that is the page
  running the script. With the script on \<^verbatim>\<open>https://host.example/\<close> and \<^verbatim>\<open>img/a.png\<close> on the
  fetched page \<^verbatim>\<open>https://site.example/list\<close>, line 86 resolves an absolute URL, which stays
  as it is, and the slide's \<^verbatim>\<open>img\<close> is \<^verbatim>\<open>https://host.example/img/a.png\<close>, where the URL parser
  would have answered \<^verbatim>\<open>https://site.example/img/a.png\<close> for the attribute.
\<close>

theorem image_resolved_against_host:
  "reflect_url two_URL ''https://host.example/'' (Some ''img/a.png'') =
     ''https://host.example/img/a.png''
   \<and> snd (fetchSlidesFromItch hosted ''https://site.example/list'') =
      Inr [slide (Str ''Untitled'') (Str []) (Str ''https://host.example/img/a.png'')
             (Str ''https://site.example/list'')]
   \<and> new_URL hosted ''img/a.png'' ''https://site.example/list'' =
      Inr ''https://site.example/img/a.png''"
  by (simp add: fetchSlidesFromItch_def try_catch_def proxy_tier_def do_fetch_def hosted_def
      api_request_def direct_or_sample_def direct_tier_def page_request_def cells_page_def
      find_nodes_def selectors_def parse_nodes_def candidate_def find_anchor_def
      image_cell_def leaf_def elem_and_def js_or_def absUrl_def two_URL_def reflect_url_def
      test_scheme_def lower_def keep_def slide_def Let_def)

text \<open>
  C10, as amended. A node with no anchor inside or around it gives a candidate whose
  \<^verbatim>\<open>url\<close> is the URL of the fetched page. For a non-empty page URL the filter keeps a
  candidate exactly when its node has no anchor or an anchor with a non-empty \<^verbatim>\<open>href\<close>;
  when that holds for the first 12 matched nodes, each of them gives exactly one slide.
\<close>

theorem candidate_per_node:
  "(querySelector node ''a'' = None \<and> closest node ''a'' = None
      \<longrightarrow> js_get (candidate env url node) ''url'' = Inr (Str url))
   \<and> (url \<noteq> []
      \<longrightarrow> keep (candidate env url node) =
            (case find_anchor node of None \<Rightarrow> True | Some a \<Rightarrow> href a \<noteq> []))
   \<and> (url \<noteq> [] \<and>
       (\<forall>n \<in> set (take 12 nodes). case find_anchor n of None \<Rightarrow> True | Some a \<Rightarrow> href a \<noteq> [])
      \<longrightarrow> parse_nodes env url nodes = map (candidate env url) (take 12 nodes)
          \<and> length (parse_nodes env url nodes) = min 12 (length nodes))"
proof (intro conjI impI)
  assume "querySelector node ''a'' = None \<and> closest node ''a'' = None"
  then have "find_anchor node = None" by (simp add: find_anchor_def)
  then show "js_get (candidate env url node) ''url'' = Inr (Str url)"
    by (simp add: candidate_url_field)
next
  assume "url \<noteq> []"
  then show "keep (candidate env url node) =
      (case find_anchor node of None \<Rightarrow> True | Some a \<Rightarrow> href a \<noteq> [])"
    by (simp add: keep_candidate split: option.splits)
next
  assume a: "url \<noteq> [] \<and>
       (\<forall>n \<in> set (take 12 nodes). case find_anchor n of None \<Rightarrow> True | Some a \<Rightarrow> href a \<noteq> [])"
  then have "\<forall>n \<in> set (take 12 nodes). keep (candidate env url n)"
    by (auto simp: keep_candidate split: option.splits)
  then have "filter keep (map (candidate env url) (take 12 nodes)) =
      map (candidate env url) (take 12 nodes)"
    by (simp add: filter_map o_def)
  then show "parse_nodes env url nodes = map (candidate env url) (take 12 nodes)"
    by (simp add: parse_nodes_def)
  then show "length (parse_nodes env url nodes) = min 12 (length nodes)"
    by (simp add: min.commute)
qed

theorem candidate_per_node_witness:
  "js_get (candidate offline ''https://site.example/list'' (image_cell ''img/a.png'')) ''url'' =
     Inr (Str ''https://site.example/list'')
   \<and> keep (candidate offline ''https://site.example/list'' (image_cell ''img/a.png''))
   \<and> \<not> keep (candidate offline ''https://site.example/list'' (anchor_cell [] ''Game''))
   \<and> length (parse_nodes offline ''https://site.example/list''
        [image_cell ''img/a.png'', anchor_cell ''https://site.example/game'' ''Game'']) = 2"
proof -
  have u: "''https://site.example/list'' \<noteq> []" by simp
  have n: "querySelector (image_cell ''img/a.png'') ''a'' = None \<and>
      closest (image_cell ''img/a.png'') ''a'' = None"
    by (simp add: image_cell_def)
  have f1: "find_anchor (image_cell ''img/a.png'') = None"
    by (simp add: find_anchor_def image_cell_def)
  have f2: "find_anchor (anchor_cell [] ''Game'') = Some (leaf [] [] [] ''Game'')"
    by (simp add: find_anchor_def anchor_cell_def)
  have f3: "find_anchor (anchor_cell ''https://site.example/game'' ''Game'') =
      Some (leaf ''https://site.example/game'' [] [] ''Game'')"
    by (simp add: find_anchor_def anchor_cell_def)
  have a: "\<forall>n \<in> set (take 12 [image_cell ''img/a.png'',
        anchor_cell ''https://site.example/game'' ''Game'']).
      case find_anchor n of None \<Rightarrow> True | Some a \<Rightarrow> href a \<noteq> []"
    using f1 f3 by (simp add: leaf_def)
  show ?thesis
    using candidate_per_node [of "image_cell ''img/a.png''" offline "''https://site.example/list''"
        "[image_cell ''img/a.png'', anchor_cell ''https://site.example/game'' ''Game'']"]
      candidate_per_node [of "anchor_cell [] ''Game''" offline "''https://site.example/list''" "[]"]
      u n a f1 f2
    by (simp add: leaf_def)
qed

text \<open>
  C10 as stated fails: of two matched game cells, the one whose anchor has no \<^verbatim>\<open>href\<close> is
  discarded by the filter, although the page URL is not empty, and one slide is produced.
\<close>

theorem candidate_per_node_counterexample:
  "length (find_nodes mixed_page) = 2
   \<and> ''https://site.example/list'' \<noteq> []
   \<and> length (parse_nodes offline ''https://site.example/list'' (find_nodes mixed_page)) = 1
   \<and> snd (fetchSlidesFromItch (browser (Inl NetworkError) mixed_page) ''https://site.example/list'') =
      Inr [slide (Str ''Untitled'') (Str []) (Str ''https://site.example/img/a.png'')
             (Str ''https://site.example/list'')]"
  by (simp add: fetchSlidesFromItch_def try_catch_def proxy_tier_def do_fetch_def browser_def
        api_request_def direct_or_sample_def direct_tier_def page_request_def cells_page_def
        find_nodes_def
        selectors_def parse_nodes_def candidate_def find_anchor_def image_cell_def leaf_def
        elem_and_def js_or_def absUrl_def one_URL_def keep_def slide_def Let_def
        mixed_page_def anchor_cell_def offline_def trim_def)

section \<open>The current index under the events of the page\<close>

lemma stopAuto_frame:
  "slides (stopAuto st) = slides st" "current (stopAuto st) = current st"
  "targets (stopAuto st) = targets st" "itchUrl (stopAuto st) = itchUrl st"
  "pending (stopAuto st) = pending st"
  by (simp_all add: stopAuto_def clearInterval_def split: option.splits)

lemma startAuto_frame:
  "slides (startAuto st) = slides st" "current (startAuto st) = current st"
  "targets (startAuto st) = targets st" "itchUrl (startAuto st) = itchUrl st"
  "pending (startAuto st) = pending st"
  by (simp_all add: startAuto_def setInterval_def Let_def stopAuto_frame)

lemma showSlide_index_valid:
  assumes "- int (length (slides st)) \<le> i"
  shows "index_valid (snd (showSlide i st))"
proof (cases "slides st = []")
  case True
  then show ?thesis by (simp add: showSlide_empty index_valid_def)
next
  case False
  then show ?thesis
    using assms by (simp add: index_valid_def showSlide_frame showSlide_in_range)
qed

lemma then_do_preserves:
  assumes "P (snd r)" and "\<And>s. P s \<Longrightarrow> P (snd (f s))"
  shows "P (snd (then_do r f))"
  using assms by (simp add: then_do_def split: completion.splits)

lemma keydown_preserves:
  assumes st: "P st"
    and nx: "\<And>s. P s \<Longrightarrow> P (snd (nextSlide s))"
    and pv: "\<And>s. P s \<Longrightarrow> P (snd (prevSlide s))"
    and sa: "\<And>s. P s \<Longrightarrow> P (startAuto s)"
    and ld: "\<And>s u. P s \<Longrightarrow> P (loadSlides_call u s)"
  shows "P (snd (keydown key answer st))"
proof -
  have right: "P (snd (if key = ''ArrowRight''
      then then_do (nextSlide s) (\<lambda>s. (Returned, startAuto s)) else (Returned, s)))"
    if "P s" for s
    using that nx [OF that] sa by (simp add: then_do_def split: completion.splits)
  have left: "P (snd (if key = ''ArrowLeft''
      then then_do (prevSlide s) (\<lambda>s. (Returned, startAuto s)) else (Returned, s)))"
    if "P s" for s
    using that pv [OF that] sa by (simp add: then_do_def split: completion.splits)
  have f2: "P (snd (if key = ''F2'' then
      (case answer of None \<Rightarrow> (Returned, s)
       | Some input \<Rightarrow> if input \<noteq> [] then (Returned, loadSlides_call (normalize input) s)
                        else (Returned, s))
      else (Returned, s)))"
    if "P s" for s
    using that ld [OF that] by (simp split: option.splits)
  have rest: "P (snd (then_do
      (if key = ''ArrowLeft''
       then then_do (prevSlide s) (\<lambda>s. (Returned, startAuto s)) else (Returned, s))
      (\<lambda>st2. if key = ''F2'' then
         (case answer of None \<Rightarrow> (Returned, st2)
          | Some input \<Rightarrow> if input \<noteq> [] then (Returned, loadSlides_call (normalize input) st2)
                           else (Returned, st2))
         else (Returned, st2))))"
    if "P s" for s
    using left [OF that] f2 by (rule then_do_preserves [where P = P])
  show ?thesis
    unfolding keydown_def using right [OF st] rest by (rule then_do_preserves [where P = P])
qed

lemma loadSlides_resume_preserves:
  assumes "\<And>s. P (snd (showSlide 0 (s\<lparr>slides := xs\<rparr>)))"
    and "\<And>s. P s \<Longrightarrow> P (startAuto s)"
  shows "P (snd (loadSlides_resume (Inr xs) st))"
  using assms(1) [of st] assms(2)
  by (simp add: loadSlides_resume_def then_do_def split: completion.splits)

lemma loadSlides_resume_slides:
  "slides (snd (loadSlides_resume (Inr xs) st)) = xs"
  by (simp add: loadSlides_resume_def then_do_def showSlide_frame startAuto_frame
      split: completion.splits)


lemma nextSlide_index_valid:
  assumes "index_valid st"
  shows "index_valid (snd (nextSlide st))"
proof (cases "slides st = []")
  case True
  then show ?thesis by (simp add: nextSlide_def showSlide_empty index_valid_def)
next
  case False
  then have "0 \<le> current st + 1" using assms by (simp add: index_valid_def)
  then have "0 \<le> js_add (current st) 1" unfolding js_add_def by (rule round_double_nonneg)
  then have "- int (length (slides st)) \<le> js_add (current st) 1" by simp
  then show ?thesis unfolding nextSlide_def by (rule showSlide_index_valid)
qed

lemma prevSlide_index_valid:
  assumes "index_valid st"
  shows "index_valid (snd (prevSlide st))"
proof (cases "slides st = []")
  case True
  then show ?thesis by (simp add: prevSlide_def showSlide_empty index_valid_def)
next
  case False
  then have n: "0 < int (length (slides st))" by simp
  have c: "0 \<le> current st" using assms False by (simp add: index_valid_def)
  have "- 1 \<le> js_sub (current st) 1"
  proof (cases "current st = 0")
    case True
    have "\<bar>0 - 1\<bar> \<le> (2 :: int) ^ 53" by simp
    then have "round_double (0 - 1) = 0 - 1" by (rule round_double_exact)
    then show ?thesis using True by (simp add: js_sub_def)
  next
    case False
    then have "0 \<le> current st - 1" using c by simp
    then have "0 \<le> js_sub (current st) 1" unfolding js_sub_def by (rule round_double_nonneg)
    then show ?thesis by simp
  qed
  then have "- int (length (slides st)) \<le> js_sub (current st) 1" using n by linarith
  then show ?thesis unfolding prevSlide_def by (rule showSlide_index_valid)
qed

lemma startAuto_index_valid: "index_valid st \<Longrightarrow> index_valid (startAuto st)"
  by (simp add: index_valid_def startAuto_frame)

lemma stopAuto_index_valid: "index_valid st \<Longrightarrow> index_valid (stopAuto st)"
  by (simp add: index_valid_def stopAuto_frame)

lemma loadSlides_call_index_valid: "index_valid st \<Longrightarrow> index_valid (loadSlides_call u st)"
  by (simp add: index_valid_def loadSlides_call_def Let_def)

lemma loadSlides_resume_index_valid:
  assumes "index_valid st"
  shows "index_valid (snd (loadSlides_resume r st))"
proof (cases r)
  case (Inl e)
  then show ?thesis using assms by (simp add: loadSlides_resume_def)
next
  case (Inr xs)
  have "index_valid (snd (loadSlides_resume (Inr xs) st))"
  proof (rule loadSlides_resume_preserves [where P = index_valid])
    fix s :: state
    have "- int (length (slides (s\<lparr>slides := xs\<rparr>))) \<le> 0" by simp
    then show "index_valid (snd (showSlide 0 (s\<lparr>slides := xs\<rparr>)))"
      by (rule showSlide_index_valid)
  qed (rule startAuto_index_valid)
  then show ?thesis using Inr by simp
qed

lemma keydown_index_valid:
  "index_valid st \<Longrightarrow> index_valid (snd (keydown key answer st))"
  by (rule keydown_preserves [where P = index_valid])
    (simp_all add: nextSlide_index_valid prevSlide_index_valid startAuto_index_valid
      loadSlides_call_index_valid)

lemma step_index_valid:
  assumes "index_valid st"
  shows "index_valid (step e st)"
proof (cases e)
  case (FetchSettled k env)
  have "index_valid (st\<lparr>pending := take k (pending st) @ drop (Suc k) (pending st)\<rparr>)"
    using assms by (simp add: index_valid_def)
  then show ?thesis using assms FetchSettled by (simp add: loadSlides_resume_index_valid)
qed (use assms in \<open>simp_all add: keydown_index_valid stopAuto_index_valid
      startAuto_index_valid loadSlides_call_index_valid nextSlide_index_valid\<close>)

lemma run_preserves:
  assumes "P st" and "\<And>e s. P s \<Longrightarrow> P (step e s)"
  shows "P (run es st)"
  using assms(1) by (induction es arbitrary: st) (simp_all add: assms(2))

lemma keydown_slides: "slides (snd (keydown key answer st)) = slides st"
  by (rule keydown_preserves [where P = "\<lambda>s. slides s = slides st"])
    (simp_all add: nextSlide_def prevSlide_def showSlide_frame startAuto_frame
      loadSlides_call_def Let_def)

lemma keydown_empty_targets:
  assumes "slides st = []"
  shows "targets (snd (keydown key answer st)) = targets st"
proof -
  have "slides (snd (keydown key answer st)) = [] \<and> targets (snd (keydown key answer st)) = targets st"
    by (rule keydown_preserves [where P = "\<lambda>s. slides s = [] \<and> targets s = targets st"])
      (simp_all add: assms nextSlide_def prevSlide_def showSlide_empty startAuto_frame
        loadSlides_call_def Let_def)
  then show ?thesis by simp
qed

lemma step_render_nonempty:
  assumes "slides (step e st) = []"
  shows "targets (step e st) = targets st"
proof (cases e)
  case (KeyDown key answer)
  then have "slides st = []" using assms by (simp add: keydown_slides)
  then show ?thesis using KeyDown by (simp add: keydown_empty_targets)
next
  case (Tick h)
  then have "slides st = []" using assms by (simp add: nextSlide_def showSlide_frame split: if_splits)
  then show ?thesis using Tick by (simp add: nextSlide_def showSlide_empty)
next
  case (FetchSettled k env)
  show ?thesis
  proof (cases "k < length (pending st)")
    case True
    obtain xs where x: "snd (fetchSlidesFromItch env (pending st ! k)) = Inr xs" "xs \<noteq> []"
      using fetchSlides_nonempty by blast
    then have "slides (step e st) = xs"
      using FetchSettled True by (simp add: loadSlides_resume_slides)
    then show ?thesis using assms x(2) by simp
  next
    case False
    then show ?thesis using FetchSettled by simp
  qed
qed (simp_all add: stopAuto_frame startAuto_frame loadSlides_call_def Let_def)


text \<open>
  C3. The invariant holds when the script starts and every operation keeps it: the next
  and previous slide, the key handler, loading, and every event of the page (key, hover,
  load, timer tick, settled fetch); so it holds after every sequence of events. On an
  empty slide list the next and previous slide change nothing, and an event that changes a
  render target leaves a non-empty slide list.
\<close>

theorem index_always_valid:
  "index_valid (initial v)
   \<and> (index_valid st \<longrightarrow> index_valid (snd (nextSlide st)) \<and> index_valid (snd (prevSlide st))
        \<and> index_valid (snd (keydown key answer st)) \<and> index_valid (snd (loadSlides env u st))
        \<and> index_valid (step e st))
   \<and> index_valid (run es (initial v))
   \<and> (slides st = [] \<longrightarrow> nextSlide st = (Returned, st) \<and> prevSlide st = (Returned, st))
   \<and> (targets (step e st) \<noteq> targets st \<longrightarrow> slides (step e st) \<noteq> [])"
proof (intro conjI impI)
  show i: "index_valid (initial v)" by (simp add: index_valid_def initial_def)
  show "index_valid (run es (initial v))"
    using i step_index_valid by (rule run_preserves [where P = index_valid])
  show "targets (step e st) \<noteq> targets st \<Longrightarrow> slides (step e st) \<noteq> []"
    using step_render_nonempty [of e st] by auto
next
  assume a: "index_valid st"
  show "index_valid (snd (nextSlide st))" using a by (rule nextSlide_index_valid)
  show "index_valid (snd (prevSlide st))" using a by (rule prevSlide_index_valid)
  show "index_valid (snd (keydown key answer st))" using a by (rule keydown_index_valid)
  show "index_valid (step e st)" using a by (rule step_index_valid)
  have "index_valid ((loadSlides_call u st)\<lparr>pending := butlast (pending (loadSlides_call u st))\<rparr>)"
    using a by (simp add: index_valid_def loadSlides_call_def Let_def)
  then show "index_valid (snd (loadSlides env u st))"
    by (simp add: loadSlides_def Let_def loadSlides_resume_index_valid)
next
  assume "slides st = []"
  then show "nextSlide st = (Returned, st)" by (simp add: nextSlide_def showSlide_empty)
next
  assume "slides st = []"
  then show "prevSlide st = (Returned, st)" by (simp add: prevSlide_def showSlide_empty)
qed

theorem index_always_valid_witness:
  "index_valid two_slides
   \<and> current (step (KeyDown ''ArrowLeft'' None) two_slides) = 1
   \<and> index_valid (step (KeyDown ''ArrowLeft'' None) two_slides)
   \<and> nextSlide (initial blank_view) = (Returned, initial blank_view)
   \<and> index_valid
       (run [WindowLoad, FetchSettled 0 offline, Tick 1, KeyDown ''ArrowLeft'' None]
          (initial blank_view))"
proof -
  have v: "index_valid two_slides"
    by (simp add: index_valid_def two_slides_def initial_def sampleSlides_def)
  have c: "current (step (KeyDown ''ArrowLeft'' None) two_slides) = 1"
    by (simp add: keydown_def then_do_def prevSlide_def showSlide_def two_slides_def
        initial_def sampleSlides_def js_rem_def js_sub_def js_add_def round_double_exact
        Let_def startAuto_def stopAuto_def setInterval_def js_index_def render_def slide_def
        restart_animation_def js_or_def blank_view_def)
  have e: "slides (initial blank_view) = []" by (simp add: initial_def)
  show ?thesis
    using v c e
      index_always_valid [where st = two_slides and e = "KeyDown ''ArrowLeft'' None"]
      index_always_valid [where st = "initial blank_view" and v = blank_view
        and es = "[WindowLoad, FetchSettled 0 offline, Tick 1, KeyDown ''ArrowLeft'' None]"]
    by simp
qed

section \<open>The auto-advance timer\<close>

lemma stopAuto_one_timer:
  "one_timer st \<Longrightarrow> one_timer (stopAuto st) \<and> intervals (stopAuto st) = [] \<and> timer (stopAuto st) = None"
  by (auto simp: one_timer_def stopAuto_def clearInterval_def split: option.splits)

lemma startAuto_result:
  assumes "one_timer st"
  shows "intervals (startAuto st) = [(Suc (last_handle st), AUTO_INTERVAL_MS)]"
    and "timer (startAuto st) = Some (Suc (last_handle st))"
    and "last_handle (startAuto st) = Suc (last_handle st)"
proof -
  have s: "intervals (stopAuto st) = []" "last_handle (stopAuto st) = last_handle st"
    using assms by (auto simp: one_timer_def stopAuto_def clearInterval_def split: option.splits)
  show "intervals (startAuto st) = [(Suc (last_handle st), AUTO_INTERVAL_MS)]"
    and "timer (startAuto st) = Some (Suc (last_handle st))"
    and "last_handle (startAuto st) = Suc (last_handle st)"
    using s by (simp_all add: startAuto_def setInterval_def Let_def)
qed

lemma startAuto_one_timer: "one_timer st \<Longrightarrow> one_timer (startAuto st)"
  by (simp add: one_timer_def [of "startAuto st"] startAuto_result)

lemma showSlide_one_timer: "one_timer st \<Longrightarrow> one_timer (snd (showSlide i st))"
  by (simp add: one_timer_def showSlide_frame)

lemma loadSlides_call_one_timer: "one_timer st \<Longrightarrow> one_timer (loadSlides_call u st)"
  by (simp add: one_timer_def loadSlides_call_def Let_def)

lemma keydown_one_timer: "one_timer st \<Longrightarrow> one_timer (snd (keydown key answer st))"
  by (rule keydown_preserves [where P = one_timer])
    (simp_all add: nextSlide_def prevSlide_def showSlide_one_timer startAuto_one_timer
      loadSlides_call_one_timer)

lemma loadSlides_resume_one_timer:
  assumes "one_timer st"
  shows "one_timer (snd (loadSlides_resume r st))"
proof (cases r)
  case (Inl e)
  then show ?thesis using assms by (simp add: loadSlides_resume_def)
next
  case (Inr xs)
  have "one_timer (st\<lparr>slides := xs\<rparr>)" using assms by (simp add: one_timer_def)
  then have "one_timer (snd (showSlide 0 (st\<lparr>slides := xs\<rparr>)))" by (rule showSlide_one_timer)
  then show ?thesis
    using Inr startAuto_one_timer
    by (simp add: loadSlides_resume_def then_do_def split: completion.splits)
qed

lemma step_one_timer:
  assumes "one_timer st"
  shows "one_timer (step e st)"
proof (cases e)
  case (FetchSettled k env)
  have "one_timer (st\<lparr>pending := take k (pending st) @ drop (Suc k) (pending st)\<rparr>)"
    using assms by (simp add: one_timer_def)
  then show ?thesis using assms FetchSettled by (simp add: loadSlides_resume_one_timer)
qed (use assms in \<open>simp_all add: keydown_one_timer stopAuto_one_timer startAuto_one_timer
      loadSlides_call_one_timer nextSlide_def showSlide_one_timer\<close>)

lemma one_timer_length: "one_timer st \<Longrightarrow> length (intervals st) \<le> 1"
  by (simp add: one_timer_def split: option.splits)

lemma stopAuto_idem: "stopAuto (stopAuto st) = stopAuto st"
  by (simp add: stopAuto_def clearInterval_def split: option.splits)

text \<open>
  C9. The script never has more than one interval set: the invariant holds at the start,
  every event keeps it, so after every sequence of events at most one interval is set.
  \<^verbatim>\<open>startAuto\<close> clears the interval of \<^verbatim>\<open>timer\<close> and sets a new one, so after one call, and
  after two calls in a row, exactly one interval is set. \<^verbatim>\<open>stopAuto\<close> without a timer
  changes nothing, and a second \<^verbatim>\<open>stopAuto\<close> changes nothing after the first.
\<close>

theorem single_timer:
  "one_timer (initial v)
   \<and> (one_timer st \<longrightarrow> one_timer (step e st))
   \<and> one_timer (run es (initial v))
   \<and> length (intervals (run es (initial v))) \<le> 1
   \<and> (one_timer st \<longrightarrow>
        intervals (startAuto st) = [(Suc (last_handle st), AUTO_INTERVAL_MS)]
        \<and> timer (startAuto st) = Some (Suc (last_handle st))
        \<and> length (intervals (startAuto (startAuto st))) = 1)
   \<and> (timer st = None \<longrightarrow> stopAuto st = st)
   \<and> stopAuto (stopAuto st) = stopAuto st"
proof (intro conjI impI)
  show i: "one_timer (initial v)" by (simp add: one_timer_def initial_def)
  show r: "one_timer (run es (initial v))"
    using i step_one_timer by (rule run_preserves [where P = one_timer])
  show "length (intervals (run es (initial v))) \<le> 1"
    using r by (rule one_timer_length)
  show "stopAuto (stopAuto st) = stopAuto st" by (rule stopAuto_idem)
next
  assume "one_timer st"
  then show "one_timer (step e st)" by (rule step_one_timer)
next
  assume a: "one_timer st"
  then show "intervals (startAuto st) = [(Suc (last_handle st), AUTO_INTERVAL_MS)]"
    by (rule startAuto_result)
  show "timer (startAuto st) = Some (Suc (last_handle st))"
    using a by (rule startAuto_result)
  have "one_timer (startAuto st)" using a by (rule startAuto_one_timer)
  then show "length (intervals (startAuto (startAuto st))) = 1"
    by (simp add: startAuto_result)
next
  assume "timer st = None"
  then show "stopAuto st = st" by (simp add: stopAuto_def)
qed

theorem single_timer_witness:
  "one_timer (initial blank_view)
   \<and> intervals (startAuto (startAuto (initial blank_view))) = [(2, 5000)]
   \<and> timer (startAuto (startAuto (initial blank_view))) = Some 2
   \<and> stopAuto (initial blank_view) = initial blank_view
   \<and> one_timer (step MouseLeave (initial blank_view))
   \<and> length (intervals (run [MouseLeave, MouseLeave, MouseEnter, MouseEnter, MouseLeave]
        (initial blank_view))) \<le> 1"
proof -
  have e: "startAuto (startAuto (initial blank_view)) =
      (initial blank_view)\<lparr>timer := Some 2, intervals := [(2, 5000)], last_handle := 2\<rparr>"
    by (simp add: startAuto_def stopAuto_def setInterval_def clearInterval_def initial_def
        AUTO_INTERVAL_MS_def Let_def)
  have t: "timer (initial blank_view) = None" by (simp add: initial_def)
  show ?thesis
    using e t
      single_timer [where v = blank_view and st = "initial blank_view" and e = MouseLeave
        and es = "[MouseLeave, MouseLeave, MouseEnter, MouseEnter, MouseLeave]"]
    by simp
qed

section \<open>The prompt for a new URL\<close>

text \<open>
  C7. For an answer that does not begin with \<^verbatim>\<open>http://\<close> or \<^verbatim>\<open>https://\<close> in any case, the
  value that the F2 handler passes to \<^verbatim>\<open>loadSlides\<close> is \<^verbatim>\<open>https://\<close> followed by the answer
  without a leading \<^verbatim>\<open>//\<close>; that value becomes \<^verbatim>\<open>itchUrl\<close> and is the URL fetched. The one
  answer without a scheme for which nothing is passed is the empty one: it changes
  nothing, as a cancelled prompt does. An answer with a scheme is passed as it is.
\<close>

theorem prompt_normalizes:
  "(\<not> test_scheme input \<longrightarrow>
      keydown ''F2'' (Some input) st =
        (Returned,
         if input = [] then st else loadSlides_call (''https://'' @ strip_slashes input) st))
   \<and> (\<not> test_scheme input \<and> input \<noteq> [] \<longrightarrow>
        itchUrl (snd (keydown ''F2'' (Some input) st)) = ''https://'' @ strip_slashes input
        \<and> pending (snd (keydown ''F2'' (Some input) st)) =
            pending st @ [''https://'' @ strip_slashes input])
   \<and> (test_scheme input \<longrightarrow>
        keydown ''F2'' (Some input) st = (Returned, loadSlides_call input st))
   \<and> keydown ''F2'' None st = (Returned, st)"
proof -
  have s: "input \<noteq> []" if "test_scheme input"
    using that by (auto simp: test_scheme_def)
  show ?thesis
    using s by (auto simp: keydown_def then_do_def normalize_def loadSlides_call_def Let_def)
qed

theorem prompt_normalizes_witness:
  "itchUrl (snd (keydown ''F2'' (Some ''example.itch.io'') (initial blank_view))) =
     ''https://example.itch.io''
   \<and> pending (snd (keydown ''F2'' (Some ''example.itch.io'') (initial blank_view))) =
     [''https://example.itch.io'']
   \<and> itchUrl (snd (keydown ''F2'' (Some ''//example.itch.io'') (initial blank_view))) =
     ''https://example.itch.io''
   \<and> keydown ''F2'' (Some []) two_slides = (Returned, two_slides)
   \<and> itchUrl (snd (keydown ''F2'' (Some ''HTTP://example.itch.io'') (initial blank_view))) =
     ''HTTP://example.itch.io''"
proof -
  have a: "\<not> test_scheme ''example.itch.io''"
    by (simp add: test_scheme_def lower_def)
  have b: "\<not> test_scheme ''//example.itch.io''"
    by (simp add: test_scheme_def lower_def)
  have c: "\<not> test_scheme []" by (simp add: test_scheme_def)
  have d: "test_scheme ''HTTP://example.itch.io''"
    by (simp add: test_scheme_def lower_def)
  show ?thesis
    using a b c d
      prompt_normalizes [of "''example.itch.io''" "initial blank_view"]
      prompt_normalizes [of "''//example.itch.io''" "initial blank_view"]
      prompt_normalizes [of "[]" two_slides]
      prompt_normalizes [of "''HTTP://example.itch.io''" "initial blank_view"]
    by (simp add: strip_slashes_def initial_def loadSlides_call_def Let_def)
qed

end
